theory Spec2Isabelle
  imports Main "HOL-Library.AList" "HOL-Library.Sublist"
begin

section \<open>Strings\<close>

text \<open>
  A Python \<open>str\<close> is a sequence of code points. The model is \<^typ>\<open>string\<close>, with a
  character standing for the code point of the same number (the code points below 256).
  \<open>py_isspace\<close> is \<open>str.isspace\<close> on one character of that range, \<open>py_lower\<close> is
  \<open>str.lower\<close> on one character of that range (an upper-case letter below 256 is
  lowered by adding 32, which sets the bit of weight 32, and no character of the range
  changes length), \<open>strip\<close> is \<open>str.strip()\<close> and \<open>lower\<close> is \<open>str.lower()\<close>.
\<close>

definition py_isspace :: "char \<Rightarrow> bool" where
  "py_isspace c =
     (let n = (of_char c :: nat)
      in (9 \<le> n \<and> n \<le> 13) \<or> (28 \<le> n \<and> n \<le> 32) \<or> n = 133 \<or> n = 160)"

definition py_lower :: "char \<Rightarrow> char" where
  "py_lower c =
     (let n = (of_char c :: nat)
      in if (65 \<le> n \<and> n \<le> 90) \<or> (192 \<le> n \<and> n \<le> 214) \<or> (216 \<le> n \<and> n \<le> 222)
         then (case c of Char b0 b1 b2 b3 b4 b5 b6 b7 \<Rightarrow> Char b0 b1 b2 b3 b4 True b6 b7)
         else c)"

definition strip :: "string \<Rightarrow> string" where
  "strip s = rev (dropWhile py_isspace (rev (dropWhile py_isspace s)))"

definition lower :: "string \<Rightarrow> string" where
  "lower s = map py_lower s"

text \<open>Truth value of an optional string: \<open>None\<close> and \<open>''\<close> are false.\<close>

definition truthy :: "string option \<Rightarrow> bool" where
  "truthy s = (case s of None \<Rightarrow> False | Some t \<Rightarrow> t \<noteq> [])"

section \<open>Optional lists\<close>

text \<open>
  Modelled from the spec: \<open>as_list\<close> and \<open>none_if_empty\<close> of \<open>trestle.common.list_utils\<close>
  are not among the source files. An optional collection that is absent is read as the
  empty list, and an empty collection is stored as absent (``collapses an empty
  resulting collection to absent'').
\<close>

definition as_list :: "'a list option \<Rightarrow> 'a list" where
  "as_list xs = (case xs of None \<Rightarrow> [] | Some ys \<Rightarrow> ys)"

definition none_if_empty :: "'a list \<Rightarrow> 'a list option" where
  "none_if_empty xs = (if xs = [] then None else Some xs)"

section \<open>Properties\<close>

record property =
  prop_name :: string
  prop_value :: string
  prop_remarks :: "string option"

text \<open>
  The functions on a \<open>TypeWithProps\<close> read and write its \<open>props\<close> field only; the model
  takes the field and returns its new content.
\<close>

fun get_prop_loop :: "property list \<Rightarrow> string \<Rightarrow> string option" where
  "get_prop_loop [] pname = None"
| "get_prop_loop (p # ps) pname =
     (if lower (strip (prop_name p)) = lower (strip pname) then Some (strip (prop_value p))
      else get_prop_loop ps pname)"

definition get_prop :: "property list option \<Rightarrow> string \<Rightarrow> string option \<Rightarrow> string" where
  "get_prop props pname dflt =
     (case get_prop_loop (as_list props) pname of
        Some v \<Rightarrow> v
      | None \<Rightarrow> (if truthy dflt then the dflt else []))"

text \<open>\<open>del xs[xs.index(x)]\<close> on the list of names: the first property of that name goes.\<close>

fun del_first :: "string \<Rightarrow> property list \<Rightarrow> property list" where
  "del_first pname [] = []"
| "del_first pname (p # ps) = (if prop_name p = pname then ps else p # del_first pname ps)"

definition delete_prop :: "property list option \<Rightarrow> string \<Rightarrow> property list option" where
  "delete_prop props pname =
     (let names = map prop_name (as_list props)
      in if pname \<in> set names then none_if_empty (del_first pname (as_list props))
         else (case props of None \<Rightarrow> None | Some ps \<Rightarrow> none_if_empty ps))"

definition replace_prop :: "property list option \<Rightarrow> property \<Rightarrow> property list option" where
  "replace_prop props new_prop =
     (let names = map prop_name (as_list props)
      in if prop_name new_prop \<in> set names
         then Some (del_first (prop_name new_prop) (as_list props) @ [new_prop])
         else Some (as_list props @ [new_prop]))"

definition get_label :: "property list option \<Rightarrow> string" where
  "get_label props = get_prop props ''label'' None"

section \<open>Errors\<close>

text \<open>
  The exceptions the code raises or meets, with their message: \<open>TrestleError\<close>, the
  \<open>AttributeError\<close> of an attribute read on \<open>None\<close>, and the \<open>ValidationError\<close> of a
  constructor of the document model. A function that can raise returns \<open>error + 'a\<close>.
\<close>

datatype error = TrestleError string | AttributeError string | ValidationError string

section \<open>Parts and sections\<close>

text \<open>
  A \<open>Part\<close> of the document model: \<open>{ id?, name, title?, prose?, props?, parts? }\<close>; the
  id of a part is optional. Every reader of \<open>parts\<close> tests \<open>if part.parts\<close> first, so an
  absent and an empty sequence of children are the same value here, the empty list.
\<close>

datatype part = Part (part_id: "string option") (part_name: string) (part_title: "string option")
  (part_prose: "string option") (part_props: "property list option") (part_parts: "part list")

record control =
  control_id :: string
  control_title :: string
  control_props :: "property list option"
  control_parts :: "part list"

definition wrap_label :: "string \<Rightarrow> string" where
  "wrap_label label = (if label = [] then [] else [CHR 0x5C, CHR ''[''] @ label @ [CHR 0x5C, CHR '']''])"

definition gap_join :: "string \<Rightarrow> string \<Rightarrow> string" where
  "gap_join a_str b_str =
     (let a_clean = strip a_str; b_clean = strip b_str
      in if b_clean = [] then a_clean
         else a_clean @ (if a_clean \<noteq> [] then [CHR 0x0A] else []) @ b_clean)"

fun get_control_section_part :: "part \<Rightarrow> string \<Rightarrow> string"
  and section_part_loop :: "string \<Rightarrow> part list \<Rightarrow> string \<Rightarrow> string" where
  "get_control_section_part (Part pid pname ptitle pprose pprops sub) section_name =
     section_part_loop
       (case pprose of
          None \<Rightarrow> []
        | Some pr \<Rightarrow> (if pname = section_name then gap_join [] pr else []))
       sub section_name"
| "section_part_loop prose [] section_name = prose"
| "section_part_loop prose (sub_part # rest) section_name =
     section_part_loop (gap_join prose (get_control_section_part sub_part section_name))
       rest section_name"

definition get_control_section_prose :: "'a control_scheme \<Rightarrow> string \<Rightarrow> string" where
  "get_control_section_prose ctl section_name =
     section_part_loop [] (control_parts ctl) section_name"






text \<open>
  \<open>get_part\<close> returns a list whose entries are strings or lists of such entries.
  \<open>last_segment\<close> is \<open>s.split('.')[-1]\<close>: what follows the last dot, or all of \<open>s\<close>.
  \<open>part.id.split\<close> is evaluated only when the part has no label, and raises when the part
  has no id.
\<close>

datatype item = Line string | Sub "item list"

definition last_segment :: "string \<Rightarrow> string" where
  "last_segment s = rev (takeWhile (\<lambda>c. c \<noteq> CHR ''.'') (rev s))"

definition id_label :: "string option \<Rightarrow> error + string" where
  "id_label pid =
     (case pid of
        None \<Rightarrow>
          Inl (AttributeError (CHR 0x27 # ''NoneType'' @ CHR 0x27 # '' object has no attribute ''
                 @ CHR 0x27 # ''split'' @ [CHR 0x27]))
      | Some i \<Rightarrow> Inr (last_segment i))"

fun get_part :: "part \<Rightarrow> string \<Rightarrow> string option \<Rightarrow> error + item list"
  and get_part_loop :: "part list \<Rightarrow> string \<Rightarrow> string option \<Rightarrow> error + item list" where
  "get_part (Part pid pname ptitle pprose pprops sub) item_type skip_id =
     (if pname \<in> set [''statement'', item_type] then
        (let label = get_label pprops
         in case (if label = [] then id_label pid else Inr label) of
              Inl e \<Rightarrow> Inl e
            | Inr label \<Rightarrow>
                (let wrapped_label = wrap_label label;
                     pad = (if wrapped_label = [] \<or> \<not> truthy pprose then [] else '' '');
                     prose = (case pprose of None \<Rightarrow> [] | Some pr \<Rightarrow> pr);
                     items = (if pid \<noteq> skip_id then [Line (wrapped_label @ pad @ prose)] else [])
                 in if sub \<noteq> []
                    then (case get_part_loop sub item_type skip_id of
                            Inl e \<Rightarrow> Inl e
                          | Inr sub_list \<Rightarrow> Inr (items @ [Sub (sub_list @ [Line []])]))
                    else Inr items))
      else Inr [])"
| "get_part_loop [] item_type skip_id = Inr []"
| "get_part_loop (prt # rest) item_type skip_id =
     (case get_part prt item_type skip_id of
        Inl e \<Rightarrow> Inl e
      | Inr found \<Rightarrow>
          (case get_part_loop rest item_type skip_id of
             Inl e \<Rightarrow> Inl e
           | Inr more_found \<Rightarrow> Inr (found @ more_found)))"

section \<open>Parameters\<close>

datatype ParameterRep =
  LEAVE_MOUSTACHE | VALUE_OR_STRING_NONE | LABEL_OR_CHOICES | VALUE_OR_LABEL_OR_CHOICES
  | VALUE_OR_EMPTY_STRING

datatype HowMany = one | one_or_more

record parameter_selection =
  how_many :: "HowMany option"
  choice :: "string list option"

record parameter =
  param_id :: string
  param_label :: "string option"
  param_select :: "parameter_selection option"
  param_values :: "string list option"

text \<open>\<open>sep.join(xs)\<close>, \<open>s.count('.')\<close> and \<open>s.replace('.', t)\<close>.\<close>

fun join :: "string \<Rightarrow> string list \<Rightarrow> string" where
  "join sep [] = []"
| "join sep [x] = x"
| "join sep (x # y # ys) = x @ sep @ join sep (y # ys)"

definition count_dots :: "string \<Rightarrow> nat" where
  "count_dots s = length (filter (\<lambda>c. c = CHR ''.'') s)"

fun replace_dots :: "string \<Rightarrow> string \<Rightarrow> string" where
  "replace_dots [] t = []"
| "replace_dots (c # cs) t = (if c = CHR ''.'' then t @ replace_dots cs t else c # replace_dots cs t)"

definition param_values_as_str_list :: "'a parameter_scheme \<Rightarrow> string list" where
  "param_values_as_str_list param = as_list (param_values param)"

definition param_values_as_str :: "'a parameter_scheme \<Rightarrow> bool \<Rightarrow> string option" where
  "param_values_as_str param brackets =
     (if as_list (param_values param) = [] then None
      else (let values_str = join '', '' (param_values_as_str_list param)
            in Some (if brackets then ''['' @ values_str @ '']'' else values_str)))"

definition param_selection_as_str :: "'a parameter_scheme \<Rightarrow> bool \<Rightarrow> bool \<Rightarrow> string" where
  "param_selection_as_str param verbose brackets =
     (case param_select param of
        None \<Rightarrow> []
      | Some sel \<Rightarrow>
          if as_list (choice sel) = [] then []
          else (let how_many_str =
                      (case how_many sel of
                         None \<Rightarrow> []
                       | Some h \<Rightarrow> (if h = one then ''one'' else ''one or more''));
                    choices_str = join ''; '' (as_list (choice sel));
                    choices_str = (if brackets then ''['' @ choices_str @ '']'' else choices_str)
                in if verbose then ''Choose '' @ how_many_str @ '': '' @ choices_str
                   else choices_str))"

definition param_label_choices_as_str :: "'a parameter_scheme \<Rightarrow> bool \<Rightarrow> bool \<Rightarrow> string" where
  "param_label_choices_as_str param verbose brackets =
     (let choices = param_selection_as_str param verbose brackets;
          text = (if choices \<noteq> [] then Some choices else param_label param)
      in if truthy text then the text else param_id param)"

text \<open>The text the selected mode gives, before the template is looked at.\<close>

definition param_rep_str ::
  "'a parameter_scheme \<Rightarrow> ParameterRep \<Rightarrow> bool \<Rightarrow> bool \<Rightarrow> string option" where
  "param_rep_str param param_rep verbose brackets =
     (case param_rep of
        LEAVE_MOUSTACHE \<Rightarrow> None
      | VALUE_OR_STRING_NONE \<Rightarrow>
          (let param_str = param_values_as_str param False
           in if truthy param_str then param_str else Some ''None'')
      | LABEL_OR_CHOICES \<Rightarrow> Some (param_label_choices_as_str param verbose brackets)
      | VALUE_OR_LABEL_OR_CHOICES \<Rightarrow>
          (let param_str = param_values_as_str param False
           in if truthy param_str then param_str
              else Some (param_label_choices_as_str param verbose brackets))
      | VALUE_OR_EMPTY_STRING \<Rightarrow>
          (let param_str = param_values_as_str param brackets
           in if truthy param_str then param_str else Some []))"

definition param_to_str ::
  "'a parameter_scheme \<Rightarrow> ParameterRep \<Rightarrow> bool \<Rightarrow> bool \<Rightarrow> string option
     \<Rightarrow> error + string option" where
  "param_to_str param param_rep verbose brackets params_format =
     (case param_rep_str param param_rep verbose brackets of
        None \<Rightarrow> Inr None
      | Some param_str \<Rightarrow>
          (case params_format of
             None \<Rightarrow> Inr (Some param_str)
           | Some fmt \<Rightarrow>
               if fmt = [] then Inr (Some param_str)
               else if count_dots fmt > 1
               then Inl (TrestleError (''Additional text '' @ fmt
                      @ '' for the parameters cannot contain multiple dots (.)''))
               else Inr (Some (replace_dots fmt param_str))))"

section \<open>The parts of a control in document order\<close>

text \<open>
  The part tree listed depth first, a part before its children (pre-order), and the
  pieces of prose the section text is made of: the prose of every part of that name
  that has one, in that order.
\<close>

fun all_parts :: "part \<Rightarrow> part list"
  and all_parts_list :: "part list \<Rightarrow> part list" where
  "all_parts (Part pid pname ptitle pprose pprops sub) =
     Part pid pname ptitle pprose pprops sub # all_parts_list sub"
| "all_parts_list [] = []"
| "all_parts_list (p # ps) = all_parts p @ all_parts_list ps"

definition section_pieces :: "part list \<Rightarrow> string \<Rightarrow> string list" where
  "section_pieces ps section_name =
     List.map_filter (\<lambda>p. if part_name p = section_name then part_prose p else None)
       (all_parts_list ps)"

definition newline_join :: "string list \<Rightarrow> string" where
  "newline_join pieces = join [CHR 0x0A] (filter (\<lambda>s. s \<noteq> []) (map strip pieces))"




text \<open>A string with no white space at either end.\<close>

definition stripped :: "string \<Rightarrow> bool" where
  "stripped s = (s = [] \<or> (\<not> py_isspace (hd s) \<and> \<not> py_isspace (last s)))"

section \<open>Rules and parameters in properties\<close>

text \<open>
  Modelled from the spec: \<open>string_from_root\<close> of \<open>trestle.common.str_utils\<close> is not among
  the source files. The rule id of a property is ``taken from its remarks'': the text of
  the remarks, and the empty string when the property has none.
\<close>

definition string_from_root :: "string option \<Rightarrow> string" where
  "string_from_root r = (case r of None \<Rightarrow> [] | Some s \<Rightarrow> s)"

record rule_info =
  rule_name :: string
  rule_description :: string

text \<open>
  The dictionaries are association lists in insertion order: \<open>d[k] = v\<close> is
  \<open>AList.update k v d\<close>, which replaces the value of a key that is there and appends a
  new key at the end.
\<close>

fun get_rules_loop ::
  "(string \<times> rule_info) list \<Rightarrow> string \<Rightarrow> string \<Rightarrow> string \<Rightarrow> property list
     \<Rightarrow> (string \<times> rule_info) list" where
  "get_rules_loop rules name desc id' [] = rules"
| "get_rules_loop rules name desc id' (prop # rest) =
     (let (name, desc, id') =
            (if prop_name prop = ''rule_name_id''
             then (prop_value prop, desc, string_from_root (prop_remarks prop))
             else if prop_name prop = ''rule_description''
             then (name, prop_value prop, id')
             else (name, desc, id'))
      in if name \<noteq> [] \<and> desc \<noteq> []
         then get_rules_loop
                (AList.update id' \<lparr>rule_name = name, rule_description = desc\<rparr> rules) [] [] [] rest
         else get_rules_loop rules name desc id' rest)"

text \<open>No statement of \<open>get_rules_from_item\<close> raises: its result is always \<open>Inr\<close>.\<close>

definition get_rules_from_item :: "property list option \<Rightarrow> error + (string \<times> rule_info) list" where
  "get_rules_from_item props = Inr (get_rules_loop [] [] [] [] (as_list props))"

text \<open>
  The two properties a rule is written as, next to each other, the rule id in the remarks
  of both, and the entry of the dictionary they stand for.
\<close>

definition rule_pair :: "string option \<times> string \<times> string \<Rightarrow> property list" where
  "rule_pair t =
     (case t of (r, n, d) \<Rightarrow>
        [\<lparr>prop_name = ''rule_name_id'', prop_value = n, prop_remarks = r\<rparr>,
         \<lparr>prop_name = ''rule_description'', prop_value = d, prop_remarks = r\<rparr>])"

definition rule_key :: "string option \<times> string \<times> string \<Rightarrow> string" where
  "rule_key t = (case t of (r, n, d) \<Rightarrow> string_from_root r)"

definition rule_entry :: "string option \<times> string \<times> string \<Rightarrow> rule_info" where
  "rule_entry t = (case t of (r, n, d) \<Rightarrow> \<lparr>rule_name = n, rule_description = d\<rparr>)"

definition named_rule :: "string option \<times> string \<times> string \<Rightarrow> bool" where
  "named_rule t = (case t of (r, n, d) \<Rightarrow> n \<noteq> [] \<and> d \<noteq> [])"

record param_info =
  pi_name :: string
  pi_description :: "string option"
  pi_options :: "string option"

fun get_params_loop ::
  "(string \<times> param_info) list \<Rightarrow> property list \<Rightarrow> error + (string \<times> param_info) list" where
  "get_params_loop params [] = Inr params"
| "get_params_loop params (prop # rest) =
     (if prop_name prop = ''param_id'' then
        (let rule_id = string_from_root (prop_remarks prop);
             param_name = prop_value prop
         in if rule_id \<in> set (map fst params)
            then Inl (TrestleError
                   (''Duplicate param '' @ param_name @ '' found for rule '' @ rule_id))
            else get_params_loop
                   (AList.update rule_id
                      \<lparr>pi_name = param_name, pi_description = None, pi_options = None\<rparr> params)
                   rest)
      else if prop_name prop = ''param_description'' then
        (let rule_id = string_from_root (prop_remarks prop)
         in case map_of params rule_id of
              Some info \<Rightarrow>
                get_params_loop
                  (AList.update rule_id (info\<lparr>pi_description := Some (prop_value prop)\<rparr>) params)
                  rest
            | None \<Rightarrow> Inl (TrestleError
                   (''Param description for rule '' @ rule_id @ '' found with no param_id'')))
      else if prop_name prop = ''param_options'' then
        (let rule_id = string_from_root (prop_remarks prop)
         in case map_of params rule_id of
              Some info \<Rightarrow>
                get_params_loop
                  (AList.update rule_id (info\<lparr>pi_options := Some (prop_value prop)\<rparr>) params)
                  rest
            | None \<Rightarrow> Inl (TrestleError
                   (''Param options for rule '' @ rule_id @ '' found with no param_id'')))
      else get_params_loop params rest)"

definition get_params_from_item :: "property list option \<Rightarrow> error + (string \<times> param_info) list" where
  "get_params_from_item props = get_params_loop [] (as_list props)"

text \<open>
  The rule ids of the \<open>param_id\<close> properties seen so far, and a property that is a
  duplicate or an orphan after them.
\<close>

definition rule_id_of :: "property \<Rightarrow> string" where
  "rule_id_of prop = string_from_root (prop_remarks prop)"

definition seen_rule_ids :: "property list \<Rightarrow> string list" where
  "seen_rule_ids props = map rule_id_of (filter (\<lambda>q. prop_name q = ''param_id'') props)"

definition duplicate_param :: "property list \<Rightarrow> property \<Rightarrow> bool" where
  "duplicate_param before prop =
     (prop_name prop = ''param_id'' \<and> rule_id_of prop \<in> set (seen_rule_ids before))"

definition orphan_field :: "property list \<Rightarrow> property \<Rightarrow> bool" where
  "orphan_field before prop =
     ((prop_name prop = ''param_description'' \<or> prop_name prop = ''param_options'')
      \<and> rule_id_of prop \<notin> set (seen_rule_ids before))"

section \<open>Deep merge of dictionaries\<close>

text \<open>
  The values \<open>merge_dicts_deep\<close> works on: a dictionary (\<open>isinstance(v, dict)\<close>), a list
  (\<open>isinstance(v, list)\<close>) or anything else, a scalar. A dictionary is an association
  list in insertion order, in which a real dictionary has no key twice. The function
  changes \<open>dest\<close> in place and returns nothing; the model returns the new \<open>dest\<close>. Values
  are trees: \<open>dest\<close> and \<open>src\<close> are taken to share no object that the call changes.

  \<open>py_eq\<close> is \<open>==\<close> on these values: scalars by their own equality, lists element by
  element, dictionaries by size and by the value under every key, whatever the order
  of the keys. \<open>py_in x xs\<close> is \<open>x in xs\<close>, which holds for an element that is the same
  object or that is \<open>==\<close>; the same object is the same tree, and the same tree is \<open>==\<close>
  anyway when no dictionary in it has a key twice.
\<close>

datatype ('k, 'a) pyval =
  Scalar 'a
  | Seq "('k, 'a) pyval list"
  | Dict "('k \<times> ('k, 'a) pyval) list"

fun py_eq :: "('k, 'a) pyval \<Rightarrow> ('k, 'a) pyval \<Rightarrow> bool"
  and py_eq_list :: "('k, 'a) pyval list \<Rightarrow> ('k, 'a) pyval list \<Rightarrow> bool"
  and py_eq_items :: "('k \<times> ('k, 'a) pyval) list \<Rightarrow> ('k \<times> ('k, 'a) pyval) list \<Rightarrow> bool" where
  "py_eq (Scalar a) (Scalar b) = (a = b)"
| "py_eq (Seq xs) (Seq ys) = py_eq_list xs ys"
| "py_eq (Dict d) (Dict e) = (length d = length e \<and> py_eq_items d e)"
| "py_eq v w = False"
| "py_eq_list [] [] = True"
| "py_eq_list (x # xs) (y # ys) = (py_eq x y \<and> py_eq_list xs ys)"
| "py_eq_list xs ys = False"
| "py_eq_items [] e = True"
| "py_eq_items ((k, v) # d) e =
     ((case map_of e k of None \<Rightarrow> False | Some w \<Rightarrow> py_eq v w) \<and> py_eq_items d e)"

definition py_in :: "('k, 'a) pyval \<Rightarrow> ('k, 'a) pyval list \<Rightarrow> bool" where
  "py_in x xs = list_ex (\<lambda>y. y = x \<or> py_eq y x) xs"

fun append_new :: "('k, 'a) pyval list \<Rightarrow> ('k, 'a) pyval list \<Rightarrow> ('k, 'a) pyval list" where
  "append_new d [] = d"
| "append_new d (x # s) = append_new (if py_in x d then d else d @ [x]) s"

fun merge_dicts_deep ::
    "('k \<times> ('k, 'a) pyval) list \<Rightarrow> ('k \<times> ('k, 'a) pyval) list \<Rightarrow> bool
       \<Rightarrow> ('k \<times> ('k, 'a) pyval) list"
  and merge_value :: "('k, 'a) pyval \<Rightarrow> ('k, 'a) pyval \<Rightarrow> bool \<Rightarrow> ('k, 'a) pyval" where
  "merge_dicts_deep dest [] overwrite_header_values = dest"
| "merge_dicts_deep dest ((key, sv) # src) overwrite_header_values =
     merge_dicts_deep
       (case map_of dest key of
          Some dv \<Rightarrow> AList.update key (merge_value dv sv overwrite_header_values) dest
        | None \<Rightarrow> AList.update key sv dest)
       src overwrite_header_values"
| "merge_value (Dict d) (Dict s) overwrite_header_values =
     Dict (merge_dicts_deep d s overwrite_header_values)"
| "merge_value (Seq d) (Seq s) overwrite_header_values = Seq (append_new d s)"
| "merge_value dv sv overwrite_header_values = (if overwrite_header_values then sv else dv)"

definition is_dict :: "('k, 'a) pyval \<Rightarrow> bool" where
  "is_dict v = (case v of Dict d \<Rightarrow> True | _ \<Rightarrow> False)"

definition is_list :: "('k, 'a) pyval \<Rightarrow> bool" where
  "is_list v = (case v of Seq xs \<Rightarrow> True | _ \<Rightarrow> False)"


section \<open>Components and implemented requirements\<close>

text \<open>
  What the code takes from modules that are not among the source files, as a parameter:
  three constants of \<open>trestle.common.const\<close>, and the check the document model makes
  on the state of an \<open>ImplementationStatus\<close>, which has to be a token.
\<close>

record env =
  IMPLEMENTATION_STATUS :: string
  STATUS_OTHER :: string
  REPLACE_ME :: string
  is_token :: "string \<Rightarrow> bool"

text \<open>
  The token pattern that \<open>fix_regexes\<close> of \<open>scripts/oscal_normalize.py\<close> writes into the
  model classes, on the modelled code points, matched the way \<open>re.match\<close> does (the
  closing \<open>$\<close> also matches before a last newline).
\<close>

definition token_first :: "char \<Rightarrow> bool" where
  "token_first ch =
     (let n = (of_char ch :: nat)
      in n = 95 \<or> (65 \<le> n \<and> n \<le> 90) \<or> (97 \<le> n \<and> n \<le> 122) \<or> (192 \<le> n \<and> n \<le> 214)
         \<or> (216 \<le> n \<and> n \<le> 246) \<or> (248 \<le> n \<and> n \<le> 255))"

definition token_other :: "char \<Rightarrow> bool" where
  "token_other ch =
     (let n = (of_char ch :: nat)
      in token_first ch \<or> n = 45 \<or> n = 46 \<or> (48 \<le> n \<and> n \<le> 57) \<or> n = 183)"

definition token_pattern :: "string \<Rightarrow> bool" where
  "token_pattern s =
     (case (if s \<noteq> [] \<and> last s = CHR 0x0A then butlast s else s) of
        [] \<Rightarrow> False
      | ch # rest \<Rightarrow> token_first ch \<and> list_all token_other rest)"

record implementation_status =
  state :: string
  status_remarks :: "string option"

record statement =
  statement_id :: string
  stmt_uuid :: string
  stmt_description :: string
  stmt_props :: "property list option"
  stmt_remarks :: "string option"

record implemented_requirement =
  req_uuid :: string
  req_control_id :: string
  req_description :: string
  req_props :: "property list option"
  req_statements :: "statement list option"

text \<open>
  The document model requires the implemented requirements of a control implementation:
  the field is a list, which \<open>as_list\<close> gives back as it is, and the constructor raises
  when it is called without them.
\<close>

record control_implementation =
  ci_uuid :: string
  ci_source :: string
  ci_description :: string
  implemented_requirements :: "implemented_requirement list"

record defined_component =
  comp_title :: string
  control_implementations :: "control_implementation list option"

definition new_ControlImplementation ::
  "string \<Rightarrow> string \<Rightarrow> string \<Rightarrow> implemented_requirement list option
     \<Rightarrow> error + control_implementation" where
  "new_ControlImplementation uuid source description imp_reqs =
     (case imp_reqs of
        None \<Rightarrow> Inl (ValidationError ''implemented-requirements: field required'')
      | Some rs \<Rightarrow>
          Inr \<lparr>ci_uuid = uuid, ci_source = source, ci_description = description,
               implemented_requirements = rs\<rparr>)"

definition new_ImplementationStatus ::
  "env \<Rightarrow> string \<Rightarrow> string option \<Rightarrow> error + implementation_status" where
  "new_ImplementationStatus c st remarks =
     (if is_token c st then Inr \<lparr>state = st, status_remarks = remarks\<rparr>
      else Inl (ValidationError ''state: string does not match regex''))"

text \<open>
  \<open>_status_as_prop\<close> makes a property from a status that was checked when it was made;
  its state, a token, is an admissible value of a property, and the constant is taken to
  be an admissible name.
\<close>

definition status_as_prop :: "env \<Rightarrow> implementation_status \<Rightarrow> property" where
  "status_as_prop c status =
     \<lparr>prop_name = IMPLEMENTATION_STATUS c, prop_value = state status,
      prop_remarks = status_remarks status\<rparr>"

definition prop_as_status :: "env \<Rightarrow> property \<Rightarrow> error + implementation_status" where
  "prop_as_status c prop = new_ImplementationStatus c (prop_value prop) (prop_remarks prop)"

definition get_status_from_props ::
  "env \<Rightarrow> property list option \<Rightarrow> error + implementation_status" where
  "get_status_from_props c props =
     (case new_ImplementationStatus c (STATUS_OTHER c) None of
        Inl e \<Rightarrow> Inl e
      | Inr status \<Rightarrow>
          (case find (\<lambda>prop. prop_name prop = IMPLEMENTATION_STATUS c) (as_list props) of
             Some prop \<Rightarrow> prop_as_status c prop
           | None \<Rightarrow> Inr status))"

definition insert_status_in_props ::
  "env \<Rightarrow> property list option \<Rightarrow> implementation_status \<Rightarrow> property list option" where
  "insert_status_in_props c props status = replace_prop props (status_as_prop c status)"

definition copy_status_in_props ::
  "env \<Rightarrow> property list option \<Rightarrow> property list option \<Rightarrow> error + property list option" where
  "copy_status_in_props c dest_props src_props =
     (case get_status_from_props c src_props of
        Inl e \<Rightarrow> Inl e
      | Inr status \<Rightarrow> Inr (insert_status_in_props c dest_props status))"

text \<open>
  The body of the loop over the new statements, on the statement \<open>stat\<close> it picked:
  \<open>stat.description = statement.description\<close> and
  \<open>_copy_status_in_props(stat, statement)\<close>. After a raise the model has the error only,
  not the objects as the code left them.
\<close>

definition update_statement :: "env \<Rightarrow> statement \<Rightarrow> statement \<Rightarrow> error + statement" where
  "update_statement c stat new_statement =
     (case copy_status_in_props c (stmt_props stat) (stmt_props new_statement) of
        Inl e \<Rightarrow> Inl e
      | Inr props \<Rightarrow>
          Inr (stat\<lparr>stmt_description := stmt_description new_statement, stmt_props := props\<rparr>))"

definition statement_dict :: "statement list \<Rightarrow> (string \<rightharpoonup> statement)" where
  "statement_dict stats = fold (\<lambda>stat d. d(statement_id stat \<mapsto> stat)) stats Map.empty"

text \<open>
  The old statements are objects reached through \<open>statement_dict\<close>, and the loop changes
  them in place: the dictionary is the store of these objects, addressed by statement
  id, and \<open>new_statements\<close> is a list of references, \<open>Inl\<close> the id of an old statement in
  the store, \<open>Inr\<close> a statement of the new record (an object of its own). The references
  are read when the loop is over, so an old statement that two new statements pick shows
  the last update at both places.
\<close>

fun merge_statements_loop ::
  "env \<Rightarrow> (string \<rightharpoonup> statement) \<Rightarrow> (string + statement) list \<Rightarrow> statement list
     \<Rightarrow> error + (string \<rightharpoonup> statement) \<times> (string + statement) list" where
  "merge_statements_loop c d new_statements [] = Inr (d, new_statements)"
| "merge_statements_loop c d new_statements (new_statement # rest) =
     (case d (statement_id new_statement) of
        Some stat \<Rightarrow>
          (case update_statement c stat new_statement of
             Inl e \<Rightarrow> Inl e
           | Inr stat' \<Rightarrow>
               merge_statements_loop c (d(statement_id new_statement \<mapsto> stat'))
                 (new_statements @ [Inl (statement_id new_statement)]) rest)
      | None \<Rightarrow>
          (case update_statement c new_statement new_statement of
             Inl e \<Rightarrow> Inl e
           | Inr stat' \<Rightarrow>
               merge_statements_loop c d (new_statements @ [Inr stat']) rest))"

definition deref :: "(string \<rightharpoonup> statement) \<Rightarrow> string + statement \<Rightarrow> statement" where
  "deref d r = (case r of Inl i \<Rightarrow> the (d i) | Inr s \<Rightarrow> s)"

definition merge_statements ::
  "env \<Rightarrow> statement list \<Rightarrow> statement list \<Rightarrow> error + statement list" where
  "merge_statements c old_statements new_statements =
     (case merge_statements_loop c (statement_dict old_statements) [] new_statements of
        Inl e \<Rightarrow> Inl e
      | Inr (d, refs) \<Rightarrow> Inr (map (deref d) refs))"

definition update_imp_req ::
  "env \<Rightarrow> implemented_requirement \<Rightarrow> implemented_requirement
     \<Rightarrow> error + implemented_requirement" where
  "update_imp_req c imp_req new_imp_req =
     (case get_status_from_props c (req_props new_imp_req) of
        Inl e \<Rightarrow> Inl e
      | Inr status \<Rightarrow>
          (case merge_statements c (as_list (req_statements imp_req))
                  (as_list (req_statements new_imp_req)) of
             Inl e \<Rightarrow> Inl e
           | Inr new_statements \<Rightarrow>
               Inr (imp_req\<lparr>req_props := insert_status_in_props c (req_props imp_req) status,
                            req_statements := none_if_empty new_statements\<rparr>)))"

text \<open>
  The two nested loops with their \<open>return\<close>: \<open>Some\<close> the updated list when a requirement
  of that control id was found, \<open>None\<close> when the loop ran to its end.
\<close>

fun insert_in_imp_reqs ::
  "env \<Rightarrow> implemented_requirement \<Rightarrow> implemented_requirement list
     \<Rightarrow> error + implemented_requirement list option" where
  "insert_in_imp_reqs c new_imp_req [] = Inr None"
| "insert_in_imp_reqs c new_imp_req (imp_req # rest) =
     (if req_control_id imp_req = req_control_id new_imp_req
      then (case update_imp_req c imp_req new_imp_req of
              Inl e \<Rightarrow> Inl e
            | Inr updated \<Rightarrow> Inr (Some (updated # rest)))
      else (case insert_in_imp_reqs c new_imp_req rest of
              Inl e \<Rightarrow> Inl e
            | Inr found \<Rightarrow> Inr (map_option ((#) imp_req) found)))"

fun insert_in_control_imps ::
  "env \<Rightarrow> implemented_requirement \<Rightarrow> control_implementation list
     \<Rightarrow> error + control_implementation list option" where
  "insert_in_control_imps c new_imp_req [] = Inr None"
| "insert_in_control_imps c new_imp_req (control_imp # rest) =
     (case insert_in_imp_reqs c new_imp_req (implemented_requirements control_imp) of
        Inl e \<Rightarrow> Inl e
      | Inr (Some imp_reqs) \<Rightarrow>
          Inr (Some (control_imp\<lparr>implemented_requirements := imp_reqs\<rparr> # rest))
      | Inr None \<Rightarrow>
          (case insert_in_control_imps c new_imp_req rest of
             Inl e \<Rightarrow> Inl e
           | Inr found \<Rightarrow> Inr (map_option ((#) control_imp) found)))"

text \<open>
  \<open>new_uuid\<close> is the value \<open>uuid4()\<close> gives. The control implementation for a component
  without one is made by \<open>comp.ControlImplementation(uuid=..., source=..., description=...)\<close>,
  with no implemented requirements. The list \<open>cis\<close> below is not empty, so the branch for
  the empty list is never taken (\<open>control_implementations[0]\<close> is there).
\<close>

definition append_to_first ::
  "control_implementation list \<Rightarrow> implemented_requirement \<Rightarrow> control_implementation list" where
  "append_to_first cis new_imp_req =
     (case cis of
        [] \<Rightarrow> []
      | first # rest \<Rightarrow>
          first\<lparr>implemented_requirements := implemented_requirements first @ [new_imp_req]\<rparr>
            # rest)"

definition insert_imp_req_into_component ::
  "env \<Rightarrow> string \<Rightarrow> defined_component \<Rightarrow> implemented_requirement
     \<Rightarrow> error + defined_component" where
  "insert_imp_req_into_component c new_uuid component new_imp_req =
     (case insert_in_control_imps c new_imp_req (as_list (control_implementations component)) of
        Inl e \<Rightarrow> Inl e
      | Inr (Some control_imps) \<Rightarrow> Inr (component\<lparr>control_implementations := Some control_imps\<rparr>)
      | Inr None \<Rightarrow>
          (if as_list (control_implementations component) = []
           then (case new_ControlImplementation new_uuid (REPLACE_ME c) (REPLACE_ME c) None of
                   Inl e \<Rightarrow> Inl e
                 | Inr made \<Rightarrow>
                     Inr (component\<lparr>control_implementations :=
                            Some (append_to_first [made] new_imp_req)\<rparr>))
           else Inr (component\<lparr>control_implementations :=
                       Some (append_to_first (as_list (control_implementations component))
                               new_imp_req)\<rparr>)))"

text \<open>A node with at most one status property, which \<open>_replace_prop\<close> takes for granted.\<close>

definition one_status :: "env \<Rightarrow> property list option \<Rightarrow> bool" where
  "one_status c props =
     (length (filter (\<lambda>prop. prop_name prop = IMPLEMENTATION_STATUS c) (as_list props)) \<le> 1)"

text \<open>A control implementation that has a requirement of a control id.\<close>

definition has_control_id :: "string \<Rightarrow> control_implementation \<Rightarrow> bool" where
  "has_control_id cid control_imp =
     list_ex (\<lambda>imp_req. req_control_id imp_req = cid) (implemented_requirements control_imp)"

section \<open>Example component\<close>

definition c0 :: env where
  "c0 = \<lparr>IMPLEMENTATION_STATUS = ''implementation-status'', STATUS_OTHER = ''other'',
          REPLACE_ME = ''REPLACE_ME'', is_token = token_pattern\<rparr>"

definition stmt_old :: statement where
  "stmt_old = \<lparr>statement_id = ''ac-1_smt.a'', stmt_uuid = ''u3'', stmt_description = ''old text'',
     stmt_props = Some [\<lparr>prop_name = ''implementation-status'', prop_value = ''planned'',
                         prop_remarks = None\<rparr>],
     stmt_remarks = Some ''kept''\<rparr>"

definition stmt_new :: statement where
  "stmt_new = \<lparr>statement_id = ''ac-1_smt.a'', stmt_uuid = ''u7'', stmt_description = ''new text'',
     stmt_props = Some [\<lparr>prop_name = ''implementation-status'', prop_value = ''implemented'',
                         prop_remarks = None\<rparr>],
     stmt_remarks = None\<rparr>"

definition req_old :: implemented_requirement where
  "req_old = \<lparr>req_uuid = ''u2'', req_control_id = ''ac-1'', req_description = ''req'',
     req_props = Some [\<lparr>prop_name = ''implementation-status'', prop_value = ''planned'',
                        prop_remarks = None\<rparr>],
     req_statements = Some [stmt_old]\<rparr>"

definition req_new :: implemented_requirement where
  "req_new = \<lparr>req_uuid = ''u6'', req_control_id = ''ac-1'', req_description = ''req'',
     req_props = Some [\<lparr>prop_name = ''implementation-status'', prop_value = ''implemented'',
                        prop_remarks = None\<rparr>],
     req_statements = Some [stmt_new]\<rparr>"

definition req_other :: implemented_requirement where
  "req_other = \<lparr>req_uuid = ''u8'', req_control_id = ''ac-2'', req_description = ''req'',
     req_props = None, req_statements = None\<rparr>"

definition ci_a :: control_implementation where
  "ci_a = \<lparr>ci_uuid = ''u1'', ci_source = ''catalog'', ci_description = ''impl'',
     implemented_requirements = [req_old]\<rparr>"

definition comp_a :: defined_component where
  "comp_a = \<lparr>comp_title = ''comp'', control_implementations = Some [ci_a]\<rparr>"

definition comp_b :: defined_component where
  "comp_b = \<lparr>comp_title = ''comp'', control_implementations = None\<rparr>"

section \<open>Example controls\<close>



section \<open>Facts about strings\<close>

lemma truthy_simps [simp]:
  "truthy None = False" "truthy (Some []) = False" "truthy (Some (c # cs)) = True"
  by (simp_all add: truthy_def)

lemma lower_Status: "lower (strip ''Status'') = ''status''"
  by (simp add: lower_def strip_def py_isspace_def py_lower_def)

lemma lower_status: "lower (strip ''status'') = ''status''"
  by (simp add: lower_def strip_def py_isspace_def py_lower_def)

section \<open>Property replacement and lookup\<close>

lemma get_prop_loop_Status:
  "prop_name p = ''Status'' \<Longrightarrow> get_prop_loop (p # ps) ''status'' = Some (strip (prop_value p))"
  "prop_name p = ''Status'' \<Longrightarrow> get_prop_loop (p # ps) ''Status'' = Some (strip (prop_value p))"
  by (simp_all add: lower_Status lower_status)

lemma del_first_no_match: "\<forall>q\<in>set ps. prop_name q \<noteq> n \<Longrightarrow> del_first n ps = ps"
  by (induction ps) simp_all

lemma del_first_match:
  "\<forall>q\<in>set xs. prop_name q \<noteq> n \<Longrightarrow> prop_name p = n \<Longrightarrow> del_first n (xs @ p # ys) = xs @ ys"
  by (induction xs) simp_all

lemma get_prop_loop_find:
  "get_prop_loop ps n
     = map_option (\<lambda>q. strip (prop_value q))
         (find (\<lambda>q. lower (strip (prop_name q)) = lower (strip n)) ps)"
  by (induction ps) simp_all

lemma replace_prop_match:
  "\<forall>xs p ys. (\<forall>q\<in>set xs. prop_name q \<noteq> prop_name new_prop) \<and> prop_name p = prop_name new_prop
      \<longrightarrow> replace_prop (Some (xs @ p # ys)) new_prop = Some (xs @ ys @ [new_prop])"
  by (simp add: replace_prop_def as_list_def del_first_match)

lemma replace_prop_no_match:
  "(\<forall>q\<in>set (as_list props). prop_name q \<noteq> prop_name new_prop)
     \<longrightarrow> replace_prop props new_prop = Some (as_list props @ [new_prop])"
  by (auto simp: replace_prop_def)

lemma delete_prop_match:
  "\<forall>xs p ys. (\<forall>q\<in>set xs. prop_name q \<noteq> pname) \<and> prop_name p = pname
      \<longrightarrow> delete_prop (Some (xs @ p # ys)) pname = none_if_empty (xs @ ys)"
  by (simp add: delete_prop_def as_list_def del_first_match)

lemma delete_prop_no_match:
  "(\<forall>q\<in>set (as_list props). prop_name q \<noteq> pname)
     \<longrightarrow> delete_prop props pname = none_if_empty (as_list props)"
  by (auto simp: delete_prop_def as_list_def none_if_empty_def split: option.splits)

lemma get_prop_find:
  "get_prop props pname dflt
     = (case find (\<lambda>q. lower (strip (prop_name q)) = lower (strip pname)) (as_list props) of
          Some q \<Rightarrow> strip (prop_value q)
        | None \<Rightarrow> (if truthy dflt then the dflt else []))"
  by (simp add: get_prop_def get_prop_loop_find split: option.splits)

lemma replace_prop_Status:
  "\<forall>p. prop_name p = ''Status'' \<and> prop_name new_prop = ''status'' \<longrightarrow>
      replace_prop (Some [p]) new_prop = Some [p, new_prop]
      \<and> delete_prop (Some [p]) ''status'' = Some [p]
      \<and> get_prop (Some [p]) ''Status'' None = strip (prop_value p)
      \<and> get_prop (Some [p]) ''status'' None = strip (prop_value p)
      \<and> get_prop (replace_prop (Some [p]) new_prop) ''Status'' None = strip (prop_value p)
      \<and> get_prop (replace_prop (Some [p]) new_prop) ''status'' None = strip (prop_value p)"
proof (intro allI impI)
  fix p :: property
  assume h: "prop_name p = ''Status'' \<and> prop_name new_prop = ''status''"
  have r: "replace_prop (Some [p]) new_prop = Some [p, new_prop]"
    using h by (simp add: replace_prop_def as_list_def)
  have d: "delete_prop (Some [p]) ''status'' = Some [p]"
    using h by (simp add: delete_prop_def as_list_def none_if_empty_def)
  have g: "get_prop (Some (p # ps)) ''Status'' None = strip (prop_value p)"
    "get_prop (Some (p # ps)) ''status'' None = strip (prop_value p)" for ps
    using h by (simp_all add: get_prop_def as_list_def get_prop_loop_Status del: get_prop_loop.simps)
  show "replace_prop (Some [p]) new_prop = Some [p, new_prop]
      \<and> delete_prop (Some [p]) ''status'' = Some [p]
      \<and> get_prop (Some [p]) ''Status'' None = strip (prop_value p)
      \<and> get_prop (Some [p]) ''status'' None = strip (prop_value p)
      \<and> get_prop (replace_prop (Some [p]) new_prop) ''Status'' None = strip (prop_value p)
      \<and> get_prop (replace_prop (Some [p]) new_prop) ''status'' None = strip (prop_value p)"
    unfolding r d using g [of "[]"] g [of "[new_prop]"] by simp
qed

text \<open>
  C10. \<open>_replace_prop\<close> and \<open>_delete_prop\<close> look for the name among the names of the
  properties by plain string equality (\<open>in names\<close>, \<open>names.index\<close>): the first property
  whose name is that very string is removed, and when no property has that very string
  as its name nothing is removed (\<open>_replace_prop\<close> appends the new property in both
  cases, \<open>_delete_prop\<close> stores an empty list as absent). \<open>get_prop\<close> returns the stripped
  value of the first property whose stripped, lowered name is the stripped, lowered name
  asked for, and the default or the empty string when there is none. Hence, for a node
  whose only property is named \<open>Status\<close>, replacing with a property named \<open>status\<close>
  removes nothing and appends: the node has two properties, the old one first; deleting
  \<open>status\<close> removes nothing; and \<open>get_prop\<close> finds the old property under either name,
  before the replacement and after it.
\<close>

theorem replace_prop_exact_name:
  "(\<forall>xs p ys. (\<forall>q\<in>set xs. prop_name q \<noteq> prop_name new_prop) \<and> prop_name p = prop_name new_prop
      \<longrightarrow> replace_prop (Some (xs @ p # ys)) new_prop = Some (xs @ ys @ [new_prop]))
   \<and> ((\<forall>q\<in>set (as_list props). prop_name q \<noteq> prop_name new_prop)
      \<longrightarrow> replace_prop props new_prop = Some (as_list props @ [new_prop]))
   \<and> (\<forall>xs p ys. (\<forall>q\<in>set xs. prop_name q \<noteq> pname) \<and> prop_name p = pname
      \<longrightarrow> delete_prop (Some (xs @ p # ys)) pname = none_if_empty (xs @ ys))
   \<and> ((\<forall>q\<in>set (as_list props). prop_name q \<noteq> pname)
      \<longrightarrow> delete_prop props pname = none_if_empty (as_list props))
   \<and> get_prop props pname dflt
       = (case find (\<lambda>q. lower (strip (prop_name q)) = lower (strip pname)) (as_list props) of
            Some q \<Rightarrow> strip (prop_value q)
          | None \<Rightarrow> (if truthy dflt then the dflt else []))
   \<and> (\<forall>p. prop_name p = ''Status'' \<and> prop_name new_prop = ''status'' \<longrightarrow>
      replace_prop (Some [p]) new_prop = Some [p, new_prop]
      \<and> delete_prop (Some [p]) ''status'' = Some [p]
      \<and> get_prop (Some [p]) ''Status'' None = strip (prop_value p)
      \<and> get_prop (Some [p]) ''status'' None = strip (prop_value p)
      \<and> get_prop (replace_prop (Some [p]) new_prop) ''Status'' None = strip (prop_value p)
      \<and> get_prop (replace_prop (Some [p]) new_prop) ''status'' None = strip (prop_value p))"
  by (intro conjI)
    (rule replace_prop_match, rule replace_prop_no_match, rule delete_prop_match,
     rule delete_prop_no_match, rule get_prop_find, rule replace_prop_Status)

theorem replace_prop_exact_name_witness:
  "replace_prop
     (Some [\<lparr>prop_name = ''Status'', prop_value = '' Withdrawn'', prop_remarks = None\<rparr>,
            \<lparr>prop_name = '' status'', prop_value = ''padded'', prop_remarks = None\<rparr>,
            \<lparr>prop_name = ''status'', prop_value = ''old'', prop_remarks = None\<rparr>])
     \<lparr>prop_name = ''status'', prop_value = ''active'', prop_remarks = None\<rparr>
   = Some [\<lparr>prop_name = ''Status'', prop_value = '' Withdrawn'', prop_remarks = None\<rparr>,
           \<lparr>prop_name = '' status'', prop_value = ''padded'', prop_remarks = None\<rparr>,
           \<lparr>prop_name = ''status'', prop_value = ''active'', prop_remarks = None\<rparr>]
   \<and> delete_prop
       (Some [\<lparr>prop_name = ''status'', prop_value = ''old'', prop_remarks = None\<rparr>]) ''status''
     = None
   \<and> delete_prop
       (Some [\<lparr>prop_name = '' status'', prop_value = ''padded'', prop_remarks = None\<rparr>]) ''status''
     = Some [\<lparr>prop_name = '' status'', prop_value = ''padded'', prop_remarks = None\<rparr>]
   \<and> get_prop
       (Some [\<lparr>prop_name = '' status'', prop_value = ''padded'', prop_remarks = None\<rparr>])
       ''Status '' None = ''padded''
   \<and> replace_prop
       (Some [\<lparr>prop_name = ''Status'', prop_value = '' Withdrawn'', prop_remarks = None\<rparr>])
       \<lparr>prop_name = ''status'', prop_value = ''active'', prop_remarks = None\<rparr>
     = Some [\<lparr>prop_name = ''Status'', prop_value = '' Withdrawn'', prop_remarks = None\<rparr>,
             \<lparr>prop_name = ''status'', prop_value = ''active'', prop_remarks = None\<rparr>]
   \<and> get_prop
       (replace_prop
          (Some [\<lparr>prop_name = ''Status'', prop_value = '' Withdrawn'', prop_remarks = None\<rparr>])
          \<lparr>prop_name = ''status'', prop_value = ''active'', prop_remarks = None\<rparr>)
       ''status'' None = ''Withdrawn''"
proof -
  let ?a = "\<lparr>prop_name = ''Status'', prop_value = '' Withdrawn'', prop_remarks = None\<rparr>"
  let ?b = "\<lparr>prop_name = '' status'', prop_value = ''padded'', prop_remarks = None\<rparr>"
  let ?c = "\<lparr>prop_name = ''status'', prop_value = ''old'', prop_remarks = None\<rparr>"
  let ?n = "\<lparr>prop_name = ''status'', prop_value = ''active'', prop_remarks = None\<rparr>"
  note t = replace_prop_exact_name [of ?n "Some [?b]" "''status''" None]
  note g = replace_prop_exact_name [of ?n "Some [?b]" "''Status ''" None]
  have 1: "replace_prop (Some ([?a, ?b] @ ?c # [])) ?n = Some ([?a, ?b] @ [] @ [?n])"
    by (rule t [THEN conjunct1, rule_format]) simp
  have 2: "delete_prop (Some ([] @ ?c # [])) ''status'' = none_if_empty ([] @ [])"
    by (rule t [THEN conjunct2, THEN conjunct2, THEN conjunct1, rule_format]) simp
  have 3: "delete_prop (Some [?b]) ''status'' = none_if_empty (as_list (Some [?b]))"
    by (rule t [THEN conjunct2, THEN conjunct2, THEN conjunct2, THEN conjunct1, THEN mp])
      (simp add: as_list_def)
  have l: "lower (strip '' status'') = lower (strip ''Status '')"
    by (simp add: lower_def strip_def py_isspace_def py_lower_def)
  have s: "strip ''padded'' = ''padded''" "strip '' Withdrawn'' = ''Withdrawn''"
    by (simp_all add: strip_def py_isspace_def)
  have 4: "get_prop (Some [?b]) ''Status '' None = ''padded''"
    using g [THEN conjunct2, THEN conjunct2, THEN conjunct2, THEN conjunct2, THEN conjunct1]
    by (simp add: as_list_def l s)
  have 5: "replace_prop (Some [?a]) ?n = Some [?a, ?n]
      \<and> delete_prop (Some [?a]) ''status'' = Some [?a]
      \<and> get_prop (Some [?a]) ''Status'' None = strip (prop_value ?a)
      \<and> get_prop (Some [?a]) ''status'' None = strip (prop_value ?a)
      \<and> get_prop (replace_prop (Some [?a]) ?n) ''Status'' None = strip (prop_value ?a)
      \<and> get_prop (replace_prop (Some [?a]) ?n) ''status'' None = strip (prop_value ?a)"
    by (rule t [THEN conjunct2, THEN conjunct2, THEN conjunct2, THEN conjunct2, THEN conjunct2,
          rule_format]) simp
  have c1: "replace_prop (Some [?a, ?b, ?c]) ?n = Some [?a, ?b, ?n]"
    using 1 by simp
  have c2: "delete_prop (Some [?c]) ''status'' = None"
    using 2 by (simp add: none_if_empty_def)
  have c3: "delete_prop (Some [?b]) ''status'' = Some [?b]"
    using 3 by (simp add: none_if_empty_def as_list_def)
  have c5: "replace_prop (Some [?a]) ?n = Some [?a, ?n]"
    using 5 by (rule conjunct1)
  have v: "strip (prop_value ?a) = ''Withdrawn''"
    by (simp add: s)
  have c6: "get_prop (replace_prop (Some [?a]) ?n) ''status'' None = ''Withdrawn''"
    by (rule trans [OF 5 [THEN conjunct2, THEN conjunct2, THEN conjunct2, THEN conjunct2,
            THEN conjunct2] v])
  show ?thesis
    by (intro conjI) (rule c1, rule c2, rule c3, rule 4, rule c5, rule c6)
qed

section \<open>Rendering a parameter\<close>

lemma param_rep_str_Some:
  "param_rep \<noteq> LEAVE_MOUSTACHE \<Longrightarrow> \<exists>s. param_rep_str param param_rep verbose brackets = Some s"
  by (cases param_rep) (auto simp: param_rep_str_def Let_def truthy_def split: option.splits)

lemma count_dots_0: "count_dots fmt = 0 \<Longrightarrow> replace_dots fmt s = fmt"
  by (induction fmt) (auto simp: count_dots_def split: if_splits)

lemma replace_dots_no_dot: "CHR ''.'' \<notin> set a \<Longrightarrow> replace_dots a s = a"
  by (induction a) auto

lemma replace_dots_one:
  "CHR ''.'' \<notin> set a \<Longrightarrow> CHR ''.'' \<notin> set b \<Longrightarrow> replace_dots (a @ CHR ''.'' # b) s = a @ s @ b"
  by (induction a) (auto simp: replace_dots_no_dot)

lemma count_dots_one:
  "CHR ''.'' \<notin> set a \<Longrightarrow> CHR ''.'' \<notin> set b \<Longrightarrow> count_dots (a @ CHR ''.'' # b) = 1"
proof -
  assume a: "CHR ''.'' \<notin> set a" and b: "CHR ''.'' \<notin> set b"
  have "filter (\<lambda>c. c = CHR ''.'') a = []" "filter (\<lambda>c. c = CHR ''.'') b = []"
    using a b by (auto simp: filter_empty_conv)
  then show ?thesis by (simp add: count_dots_def)
qed

text \<open>
  C7. In mode \<open>VALUE_OR_STRING_NONE\<close> with no template, a parameter with no values
  (the field absent, or an empty list) renders as the string \<open>None\<close>, and a parameter
  whose values are the one string \<open>x\<close> renders as \<open>x\<close>.
\<close>

theorem param_to_str_value_or_string_none:
  "param_to_str (param\<lparr>param_values := None\<rparr>) VALUE_OR_STRING_NONE verbose brackets None
     = Inr (Some ''None'')
   \<and> param_to_str (param\<lparr>param_values := Some []\<rparr>) VALUE_OR_STRING_NONE verbose brackets None
     = Inr (Some ''None'')
   \<and> param_to_str (param\<lparr>param_values := Some [''x'']\<rparr>) VALUE_OR_STRING_NONE verbose brackets None
     = Inr (Some ''x'')"
  by (simp add: param_to_str_def param_rep_str_def param_values_as_str_def
      param_values_as_str_list_def as_list_def truthy_def)

text \<open>
  C9. In mode \<open>LEAVE_MOUSTACHE\<close> the call returns \<open>None\<close> whatever the template is, so it
  never raises the error of a template with several dots; and whenever the call raises,
  the mode is another one and it had produced a string: the template is looked at only
  then.
\<close>

theorem param_to_str_leave_moustache:
  "param_to_str param LEAVE_MOUSTACHE verbose brackets params_format = Inr None
   \<and> (\<forall>param_rep e. param_to_str param param_rep verbose brackets params_format = Inl e
        \<longrightarrow> param_rep \<noteq> LEAVE_MOUSTACHE
          \<and> param_rep_str param param_rep verbose brackets \<noteq> None)"
  by (auto simp: param_to_str_def param_rep_str_def split: option.splits)

theorem param_to_str_leave_moustache_witness:
  "param_to_str \<lparr>param_id = ''p1'', param_label = None, param_select = None,
       param_values = Some [''v'']\<rparr> LEAVE_MOUSTACHE False False (Some ''a.b.c'') = Inr None
   \<and> (\<exists>e. param_to_str \<lparr>param_id = ''p1'', param_label = None, param_select = None,
       param_values = Some [''v'']\<rparr> VALUE_OR_STRING_NONE False False (Some ''a.b.c'') = Inl e)
   \<and> param_rep_str \<lparr>param_id = ''p1'', param_label = None, param_select = None,
       param_values = Some [''v'']\<rparr> VALUE_OR_STRING_NONE False False \<noteq> None"
proof -
  let ?p = "\<lparr>param_id = ''p1'', param_label = None, param_select = None,
       param_values = Some [''v'']\<rparr>"
  have r: "param_rep_str ?p VALUE_OR_STRING_NONE False False = Some ''v''"
    by (simp add: param_rep_str_def param_values_as_str_def param_values_as_str_list_def
        as_list_def truthy_def)
  have e: "\<exists>e. param_to_str ?p VALUE_OR_STRING_NONE False False (Some ''a.b.c'') = Inl e"
    by (simp add: param_to_str_def r count_dots_def)
  from param_to_str_leave_moustache [of ?p False False "Some ''a.b.c''"] e r
  show ?thesis by simp
qed

text \<open>
  C6, as the code has it. In every mode but \<open>LEAVE_MOUSTACHE\<close> the mode produces a
  string, and with a non-empty template: the call fails with the format error when the
  template has more than one dot; the one dot of a template with exactly one is replaced
  by the rendered string; a template with no dot is returned as it is.
\<close>

theorem param_to_str_format:
  assumes "param_rep \<noteq> LEAVE_MOUSTACHE" and "fmt \<noteq> []"
  shows "param_rep_str param param_rep verbose brackets \<noteq> None
     \<and> (1 < count_dots fmt \<longrightarrow>
          param_to_str param param_rep verbose brackets (Some fmt)
            = Inl (TrestleError (''Additional text '' @ fmt
                     @ '' for the parameters cannot contain multiple dots (.)'')))
     \<and> (\<forall>a b s. param_rep_str param param_rep verbose brackets = Some s
            \<and> fmt = a @ CHR ''.'' # b \<and> CHR ''.'' \<notin> set a \<and> CHR ''.'' \<notin> set b \<longrightarrow>
          param_to_str param param_rep verbose brackets (Some fmt) = Inr (Some (a @ s @ b)))
     \<and> (\<forall>s. param_rep_str param param_rep verbose brackets = Some s \<and> count_dots fmt = 0 \<longrightarrow>
          param_to_str param param_rep verbose brackets (Some fmt) = Inr (Some fmt))"
proof -
  obtain s where s: "param_rep_str param param_rep verbose brackets = Some s"
    using param_rep_str_Some [OF assms(1)] by blast
  have one: "param_to_str param param_rep verbose brackets (Some (a @ CHR ''.'' # b))
      = Inr (Some (a @ s @ b))"
    if "CHR ''.'' \<notin> set a" "CHR ''.'' \<notin> set b" for a b
    using that by (simp add: param_to_str_def s count_dots_one replace_dots_one)
  have none: "count_dots fmt = 0 \<Longrightarrow>
      param_to_str param param_rep verbose brackets (Some fmt) = Inr (Some fmt)"
    using assms(2) by (simp add: param_to_str_def s count_dots_0)
  have many: "1 < count_dots fmt \<Longrightarrow>
      param_to_str param param_rep verbose brackets (Some fmt)
        = Inl (TrestleError (''Additional text '' @ fmt
                 @ '' for the parameters cannot contain multiple dots (.)''))"
    using assms(2) by (simp add: param_to_str_def s)
  show ?thesis
  proof (intro conjI allI impI)
    show "param_rep_str param param_rep verbose brackets \<noteq> None" using s by simp
  next
    assume "1 < count_dots fmt" then show "param_to_str param param_rep verbose brackets (Some fmt)
            = Inl (TrestleError (''Additional text '' @ fmt
                     @ '' for the parameters cannot contain multiple dots (.)''))"
      by (rule many)
  next
    fix a b s'
    assume h: "param_rep_str param param_rep verbose brackets = Some s'
            \<and> fmt = a @ CHR ''.'' # b \<and> CHR ''.'' \<notin> set a \<and> CHR ''.'' \<notin> set b"
    then have "s' = s" using s by simp
    then show "param_to_str param param_rep verbose brackets (Some fmt) = Inr (Some (a @ s' @ b))"
      using h one [of a b] by simp
  next
    fix s'
    assume "param_rep_str param param_rep verbose brackets = Some s' \<and> count_dots fmt = 0"
    then show "param_to_str param param_rep verbose brackets (Some fmt) = Inr (Some fmt)"
      using none by simp
  qed
qed

theorem param_to_str_format_witness:
  "param_to_str \<lparr>param_id = ''p1'', param_label = None, param_select = None,
       param_values = Some [''v'', ''w'']\<rparr> VALUE_OR_EMPTY_STRING False True (Some ''**.**'')
     = Inr (Some ''**[v, w]**'')
   \<and> param_to_str \<lparr>param_id = ''p1'', param_label = None, param_select = None,
       param_values = Some [''v'', ''w'']\<rparr> VALUE_OR_EMPTY_STRING False True (Some ''a.b.c'')
     = Inl (TrestleError
         ''Additional text a.b.c for the parameters cannot contain multiple dots (.)'')"
proof -
  let ?p = "\<lparr>param_id = ''p1'', param_label = None, param_select = None,
       param_values = Some [''v'', ''w'']\<rparr>"
  have r: "param_rep_str ?p VALUE_OR_EMPTY_STRING False True = Some ''[v, w]''"
    by (simp add: param_rep_str_def param_values_as_str_def param_values_as_str_list_def
        as_list_def truthy_def)
  have c: "1 < count_dots ''a.b.c''" by (simp add: count_dots_def)
  have n: "VALUE_OR_EMPTY_STRING \<noteq> LEAVE_MOUSTACHE" by simp
  have f: "''**.**'' \<noteq> []" "''a.b.c'' \<noteq> []" by simp_all
  note t1 = param_to_str_format [OF n f(1), of ?p False True]
  note t2 = param_to_str_format [OF n f(2), of ?p False True]
  have one: "param_to_str ?p VALUE_OR_EMPTY_STRING False True (Some ''**.**'')
      = Inr (Some (''**'' @ ''[v, w]'' @ ''**''))"
    by (rule t1 [THEN conjunct2, THEN conjunct2, THEN conjunct1, rule_format,
          of "''[v, w]''" "''**''" "''**''"]) (simp add: r)
  have two: "param_to_str ?p VALUE_OR_EMPTY_STRING False True (Some ''a.b.c'')
     = Inl (TrestleError (''Additional text '' @ ''a.b.c''
              @ '' for the parameters cannot contain multiple dots (.)''))"
    by (rule t2 [THEN conjunct2, THEN conjunct1, rule_format]) (rule c)
  show ?thesis using one two by simp
qed

theorem param_to_str_format_counterexample:
  "1 < count_dots ''a.b.c''
   \<and> param_to_str \<lparr>param_id = ''p1'', param_label = None, param_select = None,
        param_values = Some [''v'']\<rparr> LEAVE_MOUSTACHE False False (Some ''a.b.c'') = Inr None"
  by (simp add: count_dots_def param_to_str_def param_rep_str_def)

section \<open>Rendering parts\<close>

text \<open>
  C8. A part whose name is neither \<open>statement\<close> nor the item type gives the empty list,
  whatever its children are: they are not visited, so a part of the item type below it
  is not rendered.
\<close>

theorem get_part_other_name:
  assumes "pname \<noteq> ''statement''" and "pname \<noteq> item_type"
  shows "get_part (Part pid pname ptitle pprose pprops sub) item_type skip_id = Inr []"
  using assms by simp

theorem get_part_other_name_witness:
  "get_part (Part (Some ''c1_gdn'') ''guidance'' None (Some ''g'') None
       [Part (Some ''c1_gdn.a'') ''item'' None (Some ''x'') None []]) ''item'' None = Inr []
   \<and> get_part (Part (Some ''c1_gdn.a'') ''item'' None (Some ''x'') None []) ''item'' None
     = Inr [Line (CHR 0x5C # ''[a'' @ CHR 0x5C # ''] x'')]"
proof -
  have l: "last_segment ''c1_gdn.a'' = ''a''"
    by (simp add: last_segment_def)
  have "get_part (Part (Some ''c1_gdn.a'') ''item'' None (Some ''x'') None []) ''item'' None
     = Inr [Line (CHR 0x5C # ''[a'' @ CHR 0x5C # ''] x'')]"
    by (simp add: get_label_def get_prop_def as_list_def id_label_def wrap_label_def l)
  with get_part_other_name [of "''guidance''" "''item''" "Some ''c1_gdn''" None "Some ''g''" None
      "[Part (Some ''c1_gdn.a'') ''item'' None (Some ''x'') None []]" None]
  show ?thesis by simp
qed

section \<open>The section search\<close>








section \<open>Section prose\<close>

lemma dropWhile_snoc_keep: "\<not> P a \<Longrightarrow> dropWhile P (xs @ [a]) = dropWhile P xs @ [a]"
  by (induction xs) auto

lemma stripped_strip: "stripped (strip s)"
proof (cases "dropWhile py_isspace s")
  case Nil
  show ?thesis unfolding strip_def stripped_def Nil by simp
next
  case (Cons a t)
  then have a: "\<not> py_isspace a"
    using hd_dropWhile [of py_isspace s] by auto
  have d: "dropWhile py_isspace (rev t @ [a]) = dropWhile py_isspace (rev t) @ [a]"
    using a by (rule dropWhile_snoc_keep)
  let ?u = "dropWhile py_isspace (rev t) @ [a]"
  have s: "strip s = rev ?u"
    unfolding strip_def Cons using d by simp
  have u: "?u \<noteq> []" by simp
  have "dropWhile py_isspace (rev t @ [a]) \<noteq> []" unfolding d by simp
  then have "\<not> py_isspace (hd (dropWhile py_isspace (rev t @ [a])))"
    by (rule hd_dropWhile)
  then have h: "\<not> py_isspace (hd ?u)" unfolding d .
  have "hd (rev ?u) = a" by simp
  moreover have "last (rev ?u) = hd ?u" using u by (simp only: last_rev)
  ultimately show ?thesis
    unfolding s stripped_def using a h by simp
qed

lemma strip_stripped: "stripped s \<Longrightarrow> strip s = s"
proof (cases s rule: rev_cases)
  case Nil
  then show ?thesis by (simp add: strip_def)
next
  case (snoc ys y)
  assume "stripped s"
  with snoc have h: "\<not> py_isspace (hd s)" and l: "\<not> py_isspace y"
    by (auto simp: stripped_def)
  have ne: "s \<noteq> []" using snoc by simp
  have 1: "dropWhile py_isspace s = s"
    using h ne by (cases s) simp_all
  have 2: "dropWhile py_isspace (rev s) = rev s"
    unfolding snoc using l by simp
  show ?thesis unfolding strip_def 1 2 by simp
qed

lemma join_Cons: "ys \<noteq> [] \<Longrightarrow> join sep (x # ys) = x @ sep @ join sep ys"
  by (cases ys) simp_all

lemma join_nonempty: "xs \<noteq> [] \<Longrightarrow> \<forall>x\<in>set xs. x \<noteq> [] \<Longrightarrow> join sep xs \<noteq> []"
proof (induction xs)
  case Nil
  then show ?case by simp
next
  case (Cons a xs)
  then show ?case by (cases "xs = []") (simp_all add: join_Cons)
qed

lemma join_append:
  "xs \<noteq> [] \<Longrightarrow> ys \<noteq> [] \<Longrightarrow> join sep (xs @ ys) = join sep xs @ sep @ join sep ys"
proof (induction xs)
  case Nil
  then show ?case by simp
next
  case (Cons a xs)
  show ?case
  proof (cases "xs = []")
    case True
    then show ?thesis using Cons(3) by (simp add: join_Cons)
  next
    case False
    then have "xs @ ys \<noteq> []" by simp
    then have "join sep (a # xs @ ys) = a @ sep @ join sep (xs @ ys)"
      by (rule join_Cons)
    then show ?thesis
      using Cons(1) [OF False Cons(3)] join_Cons [OF False, of sep a] by simp
  qed
qed

lemma join_hd: "xs \<noteq> [] \<Longrightarrow> \<exists>suf. join sep xs = hd xs @ suf"
  by (cases xs; cases "tl xs = []") (simp_all add: join_Cons)

lemma join_last: "xs \<noteq> [] \<Longrightarrow> \<exists>pre. join sep xs = pre @ last xs"
proof (induction xs)
  case Nil
  then show ?case by simp
next
  case (Cons a xs)
  show ?case
  proof (cases "xs = []")
    case True
    then show ?thesis by simp
  next
    case False
    with Cons obtain pre where "join sep xs = pre @ last xs" by blast
    then have "join sep (a # xs) = (a @ sep @ pre) @ last (a # xs)"
      using False by (simp add: join_Cons)
    then show ?thesis by blast
  qed
qed

lemma hd_join: "xs \<noteq> [] \<Longrightarrow> hd xs \<noteq> [] \<Longrightarrow> hd (join sep xs) = hd (hd xs)"
  using join_hd [of xs sep] by auto

lemma last_join:
  "xs \<noteq> [] \<Longrightarrow> last xs \<noteq> [] \<Longrightarrow> last (join sep xs) = last (last xs)"
  using join_last [of xs sep] by auto

lemma stripped_join:
  assumes "\<forall>x\<in>set xs. x \<noteq> [] \<and> stripped x"
  shows "stripped (join sep xs)"
proof (cases xs)
  case Nil
  then show ?thesis by (simp add: stripped_def)
next
  case (Cons a t)
  then have ne: "xs \<noteq> []" by simp
  then have "hd xs \<in> set xs" "last xs \<in> set xs" by simp_all
  with assms have h: "hd xs \<noteq> []" "stripped (hd xs)" and l: "last xs \<noteq> []" "stripped (last xs)"
    by blast+
  show ?thesis
    unfolding stripped_def
    using hd_join [OF ne h(1)] last_join [OF ne l(1)] h l
    by (auto simp: stripped_def)
qed

lemma stripped_newline_join: "stripped (newline_join pieces)"
  unfolding newline_join_def
  by (rule stripped_join) (auto simp: stripped_strip)

lemma newline_join_empty_iff:
  "newline_join pieces = [] \<longleftrightarrow> filter (\<lambda>s. s \<noteq> []) (map strip pieces) = []"
proof -
  define K where "K = filter (\<lambda>s. s \<noteq> []) (map strip pieces)"
  have k: "\<forall>x\<in>set K. x \<noteq> []" by (simp add: K_def)
  have n: "newline_join pieces = join [CHR 0x0A] K"
    by (simp only: newline_join_def K_def)
  have "join [CHR 0x0A] K = [] \<longleftrightarrow> K = []"
  proof
    assume e: "join [CHR 0x0A] K = []"
    show "K = []"
    proof (rule ccontr)
      assume "K \<noteq> []"
      then have "join [CHR 0x0A] K \<noteq> []" using k by (rule join_nonempty)
      with e show False by contradiction
    qed
  next
    assume "K = []"
    then show "join [CHR 0x0A] K = []" by simp
  qed
  then show ?thesis unfolding n K_def .
qed

lemma gap_join_newline_join:
  "gap_join (newline_join xs) (newline_join ys) = newline_join (xs @ ys)"
proof -
  define X where "X = filter (\<lambda>s. s \<noteq> []) (map strip xs)"
  define Y where "Y = filter (\<lambda>s. s \<noteq> []) (map strip ys)"
  have nx: "newline_join xs = join [CHR 0x0A] X" by (simp only: newline_join_def X_def)
  have ny: "newline_join ys = join [CHR 0x0A] Y" by (simp only: newline_join_def Y_def)
  have sx: "strip (newline_join xs) = newline_join xs"
    and sy: "strip (newline_join ys) = newline_join ys"
    by (simp_all only: strip_stripped stripped_newline_join)
  have app: "newline_join (xs @ ys) = join [CHR 0x0A] (X @ Y)"
    by (simp only: newline_join_def X_def Y_def map_append filter_append)
  have ex: "join [CHR 0x0A] X = [] \<longleftrightarrow> X = []"
    using newline_join_empty_iff [of xs] unfolding nx X_def .
  have ey: "join [CHR 0x0A] Y = [] \<longleftrightarrow> Y = []"
    using newline_join_empty_iff [of ys] unfolding ny Y_def .
  have g: "gap_join (newline_join xs) (newline_join ys)
      = (if join [CHR 0x0A] Y = [] then join [CHR 0x0A] X
         else join [CHR 0x0A] X @ (if join [CHR 0x0A] X \<noteq> [] then [CHR 0x0A] else [])
              @ join [CHR 0x0A] Y)"
  proof -
    have "gap_join (newline_join xs) (newline_join ys)
      = (if newline_join ys = [] then newline_join xs
         else newline_join xs @ (if newline_join xs \<noteq> [] then [CHR 0x0A] else [])
              @ newline_join ys)"
      by (simp only: gap_join_def Let_def sx sy)
    then show ?thesis unfolding nx ny .
  qed
  show ?thesis
  proof (cases "Y = []")
    case True
    then show ?thesis unfolding g app by simp
  next
    case Y: False
    show ?thesis
    proof (cases "X = []")
      case True
      then show ?thesis unfolding g app using Y ey by simp
    next
      case False
      have "join [CHR 0x0A] (X @ Y) = join [CHR 0x0A] X @ [CHR 0x0A] @ join [CHR 0x0A] Y"
        using False Y by (rule join_append)
      then show ?thesis unfolding g app using Y False ex ey by simp
    qed
  qed
qed

lemma gap_join_single: "gap_join [] pr = newline_join [pr]"
  by (simp add: gap_join_def newline_join_def strip_def)

lemma section_pieces_Part:
  "section_pieces [Part pid pname ptitle pprose pprops sub] sn
     = (case pprose of None \<Rightarrow> [] | Some pr \<Rightarrow> if pname = sn then [pr] else [])
       @ section_pieces sub sn"
  by (auto simp: section_pieces_def List.map_filter_def split: option.splits)

lemma section_pieces_Cons:
  "section_pieces (p # ps) sn = section_pieces [p] sn @ section_pieces ps sn"
  by (simp add: section_pieces_def List.map_filter_def)

lemma section_pieces_Nil: "section_pieces [] sn = []"
  by (simp add: section_pieces_def List.map_filter_def)

lemma section_prose_pieces:
  "get_control_section_part p sn = newline_join (section_pieces [p] sn)"
  "\<forall>acc. prose = newline_join acc \<longrightarrow>
     section_part_loop prose ps sn = newline_join (acc @ section_pieces ps sn)"
proof (induction p sn and prose ps sn
    rule: get_control_section_part_section_part_loop.induct)
  case (1 pid pname ptitle pprose pprops sub sn)
  let ?own = "case pprose of None \<Rightarrow> [] | Some pr \<Rightarrow> if pname = sn then [pr] else []"
  have e: "(case pprose of None \<Rightarrow> [] | Some pr \<Rightarrow> if pname = sn then gap_join [] pr else [])
      = newline_join ?own"
    by (auto simp: gap_join_single newline_join_def split: option.splits)
  have "section_part_loop (newline_join ?own) sub sn = newline_join (?own @ section_pieces sub sn)"
    using 1 e by metis
  then show ?case
    unfolding get_control_section_part.simps e section_pieces_Part .
next
  case (2 prose sn)
  then show ?case by (simp add: section_pieces_Nil)
next
  case (3 prose sub_part rest sn)
  show ?case
  proof (intro allI impI)
    fix acc
    assume p: "prose = newline_join acc"
    have g: "gap_join prose (get_control_section_part sub_part sn)
        = newline_join (acc @ section_pieces [sub_part] sn)"
      unfolding 3(1) p by (rule gap_join_newline_join)
    have "section_part_loop (gap_join prose (get_control_section_part sub_part sn)) rest sn
        = newline_join ((acc @ section_pieces [sub_part] sn) @ section_pieces rest sn)"
      using 3(2) g by blast
    then show "section_part_loop prose (sub_part # rest) sn
        = newline_join (acc @ section_pieces (sub_part # rest) sn)"
      unfolding section_part_loop.simps section_pieces_Cons [of sub_part rest] by simp
  qed
qed

text \<open>
  C5. The section prose of a control is the prose of all its parts of that name, at any
  depth and in document order, each piece stripped, the pieces that are empty after
  stripping left out, and the others joined with one newline character between two
  neighbours; the result has no white space at its start or end.
\<close>

theorem get_control_section_prose_pieces:
  "get_control_section_prose ctl section_name
     = join [CHR 0x0A]
         (filter (\<lambda>s. s \<noteq> []) (map strip (section_pieces (control_parts ctl) section_name)))
   \<and> strip (get_control_section_prose ctl section_name)
     = get_control_section_prose ctl section_name"
proof -
  have n: "newline_join [] = []" by (simp add: newline_join_def)
  have "get_control_section_prose ctl section_name
      = newline_join (section_pieces (control_parts ctl) section_name)"
    unfolding get_control_section_prose_def
    using section_prose_pieces(2) [of "[]" "control_parts ctl" section_name, THEN spec, of "[]"]
    by (simp add: n)
  then show ?thesis
    by (simp add: strip_stripped stripped_newline_join) (simp add: newline_join_def)
qed

section \<open>Parameter and rule properties\<close>

lemma get_params_loop_append:
  "get_params_loop params (xs @ ys)
     = (case get_params_loop params xs of Inl e \<Rightarrow> Inl e | Inr params' \<Rightarrow> get_params_loop params' ys)"
  by (induction xs arbitrary: params) (auto simp: Let_def split: option.splits)

lemma keys_update: "fst ` set (AList.update k v al) = insert k (fst ` set al)"
  by (simp add: dom_update)

lemma get_params_loop_keys:
  "get_params_loop params xs = Inr params' \<Longrightarrow>
     set (map fst params') = set (map fst params) \<union> set (seen_rule_ids xs)"
proof (induction xs arbitrary: params)
  case Nil
  then show ?case by (simp add: seen_rule_ids_def)
next
  case (Cons x xs)
  consider (pid) "prop_name x = ''param_id''"
    | (desc) "prop_name x = ''param_description''"
    | (opts) "prop_name x = ''param_options''"
    | (other) "prop_name x \<noteq> ''param_id''" "prop_name x \<noteq> ''param_description''"
        "prop_name x \<noteq> ''param_options''"
    by blast
  then show ?case
  proof cases
    case pid
    with Cons.prems have
      "get_params_loop (AList.update (rule_id_of x)
          \<lparr>pi_name = prop_value x, pi_description = None, pi_options = None\<rparr> params) xs
        = Inr params'"
      by (simp add: Let_def rule_id_of_def split: if_splits)
    from Cons.IH [OF this] pid show ?thesis
      by (simp add: keys_update seen_rule_ids_def)
  next
    case desc
    with Cons.prems obtain info where i: "map_of params (rule_id_of x) = Some info"
      and r: "get_params_loop (AList.update (rule_id_of x)
          (info\<lparr>pi_description := Some (prop_value x)\<rparr>) params) xs = Inr params'"
      by (auto simp: Let_def rule_id_of_def split: option.splits)
    from i have "rule_id_of x \<in> set (map fst params)"
      by (metis map_of_eq_None_iff option.distinct(1) set_map)
    with Cons.IH [OF r] desc show ?thesis
      by (auto simp: keys_update seen_rule_ids_def)
  next
    case opts
    with Cons.prems obtain info where i: "map_of params (rule_id_of x) = Some info"
      and r: "get_params_loop (AList.update (rule_id_of x)
          (info\<lparr>pi_options := Some (prop_value x)\<rparr>) params) xs = Inr params'"
      by (auto simp: Let_def rule_id_of_def split: option.splits)
    from i have "rule_id_of x \<in> set (map fst params)"
      by (metis map_of_eq_None_iff option.distinct(1) set_map)
    with Cons.IH [OF r] opts show ?thesis
      by (auto simp: keys_update seen_rule_ids_def)
  next
    case other
    with Cons.prems have "get_params_loop params xs = Inr params'" by simp
    from Cons.IH [OF this] other show ?thesis
      by (simp add: seen_rule_ids_def)
  qed
qed

lemma get_params_step_duplicate:
  assumes "prop_name prop = ''param_id''" and "rule_id_of prop \<in> set (map fst params)"
  shows "get_params_loop params (prop # rest)
     = Inl (TrestleError (''Duplicate param '' @ prop_value prop @ '' found for rule ''
              @ rule_id_of prop))"
  using assms by (simp add: Let_def rule_id_of_def)

lemma get_params_step_description:
  assumes "prop_name prop = ''param_description''" and "rule_id_of prop \<notin> set (map fst params)"
  shows "get_params_loop params (prop # rest)
     = Inl (TrestleError (''Param description for rule '' @ rule_id_of prop
              @ '' found with no param_id''))"
proof -
  have "map_of params (rule_id_of prop) = None"
    using assms(2) by (simp add: map_of_eq_None_iff)
  then show ?thesis using assms(1) by (simp add: Let_def rule_id_of_def)
qed

lemma get_params_step_options:
  assumes "prop_name prop = ''param_options''" and "rule_id_of prop \<notin> set (map fst params)"
  shows "get_params_loop params (prop # rest)
     = Inl (TrestleError (''Param options for rule '' @ rule_id_of prop
              @ '' found with no param_id''))"
proof -
  have "map_of params (rule_id_of prop) = None"
    using assms(2) by (simp add: map_of_eq_None_iff)
  then show ?thesis using assms(1) by (simp add: Let_def rule_id_of_def)
qed

lemma get_params_step_ok:
  assumes "\<not> duplicate_param before prop" and "\<not> orphan_field before prop"
    and "set (map fst params) = set (seen_rule_ids before)"
  shows "\<exists>params'. get_params_loop params [prop] = Inr params'"
proof -
  consider (pid) "prop_name prop = ''param_id''"
    | (desc) "prop_name prop = ''param_description''"
    | (opts) "prop_name prop = ''param_options''"
    | (other) "prop_name prop \<noteq> ''param_id''" "prop_name prop \<noteq> ''param_description''"
        "prop_name prop \<noteq> ''param_options''"
    by blast
  then show ?thesis
  proof cases
    case pid
    with assms(1,3) show ?thesis
      by (simp add: duplicate_param_def Let_def rule_id_of_def)
  next
    case desc
    with assms(2,3) have "rule_id_of prop \<in> set (map fst params)"
      by (simp add: orphan_field_def)
    then obtain info where "map_of params (rule_id_of prop) = Some info"
      by (metis map_of_eq_None_iff not_None_eq set_map)
    with desc show ?thesis by (simp add: Let_def rule_id_of_def)
  next
    case opts
    with assms(2,3) have "rule_id_of prop \<in> set (map fst params)"
      by (simp add: orphan_field_def)
    then obtain info where "map_of params (rule_id_of prop) = Some info"
      by (metis map_of_eq_None_iff not_None_eq set_map)
    with opts show ?thesis by (simp add: Let_def rule_id_of_def)
  next
    case other
    then show ?thesis by simp
  qed
qed

lemma get_params_loop_error_iff:
  "(\<exists>e. get_params_loop [] xs = Inl e) \<longleftrightarrow>
   (\<exists>before prop rest. xs = before @ prop # rest
      \<and> (duplicate_param before prop \<or> orphan_field before prop))"
proof (induction xs rule: rev_induct)
  case Nil
  then show ?case by simp
next
  case (snoc x xs)
  show ?case
  proof (cases "get_params_loop [] xs")
    case (Inl e)
    then obtain bf pp rs where
      "xs = bf @ pp # rs" "duplicate_param bf pp \<or> orphan_field bf pp"
      using snoc by blast
    then have "xs @ [x] = bf @ pp # (rs @ [x])
        \<and> (duplicate_param bf pp \<or> orphan_field bf pp)"
      by simp
    then have "\<exists>before prop rest. xs @ [x] = before @ prop # rest
        \<and> (duplicate_param before prop \<or> orphan_field before prop)"
      by blast
    moreover have "\<exists>e. get_params_loop [] (xs @ [x]) = Inl e"
      by (simp add: get_params_loop_append Inl)
    ultimately show ?thesis by blast
  next
    case (Inr params)
    have keys: "set (map fst params) = set (seen_rule_ids xs)"
      using get_params_loop_keys [OF Inr] by simp
    have no: "\<not> (\<exists>before prop rest. xs = before @ prop # rest
        \<and> (duplicate_param before prop \<or> orphan_field before prop))"
      using snoc Inr by simp
    have step: "get_params_loop [] (xs @ [x]) = get_params_loop params [x]"
      by (simp add: get_params_loop_append Inr)
    show ?thesis
    proof (cases "duplicate_param xs x \<or> orphan_field xs x")
      case True
      then have "\<exists>e. get_params_loop params [x] = Inl e"
        using keys get_params_step_duplicate [of x params "[]"]
          get_params_step_description [of x params "[]"]
          get_params_step_options [of x params "[]"]
        by (auto simp: duplicate_param_def orphan_field_def)
      moreover have "xs @ [x] = xs @ x # []" by simp
      ultimately show ?thesis using True step by metis
    next
      case False
      then have ok: "\<exists>params'. get_params_loop params [x] = Inr params'"
        using get_params_step_ok [of xs x params] keys by blast
      have "\<not> (\<exists>before prop rest. xs @ [x] = before @ prop # rest
          \<and> (duplicate_param before prop \<or> orphan_field before prop))"
      proof
        assume "\<exists>before prop rest. xs @ [x] = before @ prop # rest
          \<and> (duplicate_param before prop \<or> orphan_field before prop)"
        then obtain bf pp rs where d: "xs @ [x] = bf @ pp # rs"
          and o: "duplicate_param bf pp \<or> orphan_field bf pp"
          by blast
        show False
        proof (cases rs rule: rev_cases)
          case Nil
          with d have "bf = xs" "pp = x" by simp_all
          with o False show False by simp
        next
          case (snoc rest' y)
          with d have "xs = bf @ pp # rest'" by simp
          with o no show False by blast
        qed
      qed
      with ok step show ?thesis by auto
    qed
  qed
qed

lemma get_params_first_offender:
  assumes "xs = before @ prop # rest" and "get_params_loop [] before = Inr params"
  shows "get_params_loop [] xs = get_params_loop params (prop # rest)"
    and "set (map fst params) = set (seen_rule_ids before)"
  using assms get_params_loop_keys [OF assms(2)] by (simp_all add: get_params_loop_append)


lemma get_params_error_iff:
  "((\<exists>e. get_params_from_item props = Inl e) \<longleftrightarrow>
      (\<exists>before prop rest. as_list props = before @ prop # rest
         \<and> (duplicate_param before prop \<or> orphan_field before prop)))"
  unfolding get_params_from_item_def by (rule get_params_loop_error_iff)

lemma get_params_error_message:
  "(\<forall>before prop rest.
         as_list props = before @ prop # rest
         \<and> (\<exists>params. get_params_from_item (Some before) = Inr params) \<longrightarrow>
         (duplicate_param before prop \<longrightarrow>
            get_params_from_item props
              = Inl (TrestleError (''Duplicate param '' @ prop_value prop
                       @ '' found for rule '' @ rule_id_of prop)))
         \<and> (orphan_field before prop \<and> prop_name prop = ''param_description'' \<longrightarrow>
            get_params_from_item props
              = Inl (TrestleError (''Param description for rule '' @ rule_id_of prop
                       @ '' found with no param_id'')))
         \<and> (orphan_field before prop \<and> prop_name prop = ''param_options'' \<longrightarrow>
            get_params_from_item props
              = Inl (TrestleError (''Param options for rule '' @ rule_id_of prop
                       @ '' found with no param_id''))))"
proof -
  have run: "\<exists>params. get_params_from_item props = get_params_loop params (q # rest)
      \<and> set (map fst params) = set (seen_rule_ids before)"
    if h: "as_list props = before @ q # rest
         \<and> (\<exists>params. get_params_from_item (Some before) = Inr params)"
    for before q rest
  proof -
    from h obtain params where p: "get_params_loop [] before = Inr params"
      by (auto simp: get_params_from_item_def as_list_def)
    have "get_params_from_item props = get_params_loop params (q # rest)"
      using h p by (simp add: get_params_from_item_def get_params_loop_append)
    moreover have "set (map fst params) = set (seen_rule_ids before)"
      using get_params_loop_keys [OF p] by simp
    ultimately show ?thesis by blast
  qed
  show ?thesis
  proof (intro conjI allI impI)
    fix before q rest
    assume h: "as_list props = before @ q # rest
           \<and> (\<exists>params. get_params_from_item (Some before) = Inr params)"
      and d: "duplicate_param before q"
    from run [OF h] obtain params where
      r: "get_params_from_item props = get_params_loop params (q # rest)"
      and k: "set (map fst params) = set (seen_rule_ids before)" by blast
    show "get_params_from_item props
                = Inl (TrestleError (''Duplicate param '' @ prop_value q
                         @ '' found for rule '' @ rule_id_of q))"
      unfolding r using d k
      by (intro get_params_step_duplicate) (simp_all add: duplicate_param_def)
  next
    fix before q rest
    assume h: "as_list props = before @ q # rest
           \<and> (\<exists>params. get_params_from_item (Some before) = Inr params)"
      and d: "orphan_field before q \<and> prop_name q = ''param_description''"
    from run [OF h] obtain params where
      r: "get_params_from_item props = get_params_loop params (q # rest)"
      and k: "set (map fst params) = set (seen_rule_ids before)" by blast
    show "get_params_from_item props
                = Inl (TrestleError (''Param description for rule '' @ rule_id_of q
                         @ '' found with no param_id''))"
      unfolding r using d k
      by (intro get_params_step_description) (simp_all add: orphan_field_def)
  next
    fix before q rest
    assume h: "as_list props = before @ q # rest
           \<and> (\<exists>params. get_params_from_item (Some before) = Inr params)"
      and d: "orphan_field before q \<and> prop_name q = ''param_options''"
    from run [OF h] obtain params where
      r: "get_params_from_item props = get_params_loop params (q # rest)"
      and k: "set (map fst params) = set (seen_rule_ids before)" by blast
    show "get_params_from_item props
                = Inl (TrestleError (''Param options for rule '' @ rule_id_of q
                         @ '' found with no param_id''))"
      unfolding r using d k
      by (intro get_params_step_options) (simp_all add: orphan_field_def)
  qed
qed

lemma get_rules_loop_pairs:
  "list_all named_rule ts \<Longrightarrow>
     get_rules_loop rules [] [] [] (concat (map rule_pair ts))
       = fold (\<lambda>t. AList.update (rule_key t) (rule_entry t)) ts rules"
proof (induction ts arbitrary: rules)
  case Nil
  then show ?case by simp
next
  case (Cons t ts)
  obtain r n d where t: "t = (r, n, d)" by (cases t)
  from Cons.prems have rest: "list_all named_rule ts" and nt: "named_rule t"
    by simp_all
  from nt t have nd: "n \<noteq> []" "d \<noteq> []"
    by (simp_all add: named_rule_def)
  have "get_rules_loop rules [] [] [] (rule_pair t @ concat (map rule_pair ts))
      = get_rules_loop (AList.update (rule_key t) (rule_entry t) rules) [] [] []
          (concat (map rule_pair ts))"
    using nd by (simp add: t rule_pair_def rule_key_def rule_entry_def)
  then show ?case
    using Cons.IH [OF rest] by simp
qed

lemma map_of_fold_update:
  "map_of (fold (\<lambda>t. AList.update (f t) (g t)) ts al) k
     = (case map_of (rev (map (\<lambda>t. (f t, g t)) ts)) k of
          Some v \<Rightarrow> Some v
        | None \<Rightarrow> map_of al k)"
  by (induction ts arbitrary: al)
    (auto simp: update_conv' map_add_def split: option.splits)

lemma get_rules_last_wins:
  "\<forall>ts. list_all named_rule ts \<longrightarrow>
      get_rules_from_item (Some (concat (map rule_pair ts)))
        = Inr (fold (\<lambda>t. AList.update (rule_key t) (rule_entry t)) ts [])
      \<and> (\<forall>k. map_of (fold (\<lambda>t. AList.update (rule_key t) (rule_entry t)) ts []) k
             = map_of (rev (map (\<lambda>t. (rule_key t, rule_entry t)) ts)) k)"
proof (intro allI impI conjI)
  fix ts :: "(string option \<times> string \<times> string) list"
  assume "list_all named_rule ts"
  then show "get_rules_from_item (Some (concat (map rule_pair ts)))
        = Inr (fold (\<lambda>t. AList.update (rule_key t) (rule_entry t)) ts [])"
    by (simp add: get_rules_from_item_def as_list_def get_rules_loop_pairs)
next
  fix ts :: "(string option \<times> string \<times> string) list" and k
  show "map_of (fold (\<lambda>t. AList.update (rule_key t) (rule_entry t)) ts []) k
      = map_of (rev (map (\<lambda>t. (rule_key t, rule_entry t)) ts)) k"
    by (simp add: map_of_fold_update split: option.splits)
qed

lemma get_rules_same_id:
  "get_rules_from_item
      (Some (rule_pair (Some ''r1'', ''n1'', ''d1'') @ rule_pair (Some ''r1'', ''n2'', ''d2'')))
    = Inr [(''r1'', \<lparr>rule_name = ''n2'', rule_description = ''d2''\<rparr>)]"
  by (simp add: get_rules_from_item_def as_list_def string_from_root_def rule_pair_def)

text \<open>
  C3. \<open>get_params_from_item\<close> fails exactly when some property of the item is a duplicate
  or an orphan: a \<open>param_id\<close> property whose rule id (taken from its remarks) an earlier
  \<open>param_id\<close> property has, or a \<open>param_description\<close> or \<open>param_options\<close> property whose
  rule id no earlier \<open>param_id\<close> property has. When the properties before such a property
  are accepted, the error is the one for that property. \<open>get_rules_from_item\<close> does not
  report a rule id seen twice: for every sequence of rules written as pairs of
  properties it returns the dictionary built by storing the pairs in their order, in
  which a rule id has the name and description of the last pair that carries it; two
  pairs with the rule id \<open>r1\<close> give the one entry of the second pair and no error.
\<close>

theorem get_params_from_item_reports:
  "((\<exists>e. get_params_from_item props = Inl e) \<longleftrightarrow>
      (\<exists>before prop rest. as_list props = before @ prop # rest
         \<and> (duplicate_param before prop \<or> orphan_field before prop)))
   \<and> (\<forall>before prop rest.
         as_list props = before @ prop # rest
         \<and> (\<exists>params. get_params_from_item (Some before) = Inr params) \<longrightarrow>
         (duplicate_param before prop \<longrightarrow>
            get_params_from_item props
              = Inl (TrestleError (''Duplicate param '' @ prop_value prop
                       @ '' found for rule '' @ rule_id_of prop)))
         \<and> (orphan_field before prop \<and> prop_name prop = ''param_description'' \<longrightarrow>
            get_params_from_item props
              = Inl (TrestleError (''Param description for rule '' @ rule_id_of prop
                       @ '' found with no param_id'')))
         \<and> (orphan_field before prop \<and> prop_name prop = ''param_options'' \<longrightarrow>
            get_params_from_item props
              = Inl (TrestleError (''Param options for rule '' @ rule_id_of prop
                       @ '' found with no param_id''))))
   \<and> (\<forall>ts. list_all named_rule ts \<longrightarrow>
        get_rules_from_item (Some (concat (map rule_pair ts)))
          = Inr (fold (\<lambda>t. AList.update (rule_key t) (rule_entry t)) ts [])
        \<and> (\<forall>k. map_of (fold (\<lambda>t. AList.update (rule_key t) (rule_entry t)) ts []) k
               = map_of (rev (map (\<lambda>t. (rule_key t, rule_entry t)) ts)) k))
   \<and> get_rules_from_item
        (Some (rule_pair (Some ''r1'', ''n1'', ''d1'') @ rule_pair (Some ''r1'', ''n2'', ''d2'')))
      = Inr [(''r1'', \<lparr>rule_name = ''n2'', rule_description = ''d2''\<rparr>)]"
  by (intro conjI)
    (rule get_params_error_iff, rule get_params_error_message, rule get_rules_last_wins,
     rule get_rules_same_id)

theorem get_params_from_item_reports_witness:
  "get_params_from_item
      (Some [\<lparr>prop_name = ''param_id'', prop_value = ''p1'', prop_remarks = Some ''r1''\<rparr>,
             \<lparr>prop_name = ''param_id'', prop_value = ''p2'', prop_remarks = Some ''r1''\<rparr>])
     = Inl (TrestleError ''Duplicate param p2 found for rule r1'')
   \<and> get_params_from_item
      (Some [\<lparr>prop_name = ''param_id'', prop_value = ''p1'', prop_remarks = Some ''r1''\<rparr>,
             \<lparr>prop_name = ''param_options'', prop_value = ''a, b'', prop_remarks = Some ''r2''\<rparr>])
     = Inl (TrestleError ''Param options for rule r2 found with no param_id'')
   \<and> get_rules_from_item
      (Some (concat (map rule_pair
         [(Some ''r1'', ''n1'', ''d1''), (Some ''r2'', ''n2'', ''d2''), (Some ''r1'', ''n3'', ''d3'')])))
     = Inr [(''r1'', \<lparr>rule_name = ''n3'', rule_description = ''d3''\<rparr>),
            (''r2'', \<lparr>rule_name = ''n2'', rule_description = ''d2''\<rparr>)]"
proof -
  let ?a = "\<lparr>prop_name = ''param_id'', prop_value = ''p1'', prop_remarks = Some ''r1''\<rparr>"
  let ?b = "\<lparr>prop_name = ''param_id'', prop_value = ''p2'', prop_remarks = Some ''r1''\<rparr>"
  let ?c = "\<lparr>prop_name = ''param_options'', prop_value = ''a, b'', prop_remarks = Some ''r2''\<rparr>"
  let ?ts = "[(Some ''r1'', ''n1'', ''d1''), (Some ''r2'', ''n2'', ''d2''), (Some ''r1'', ''n3'', ''d3'')]"
  have ok: "\<exists>params. get_params_from_item (Some [?a]) = Inr params"
    by (simp add: get_params_from_item_def as_list_def string_from_root_def)
  have dup: "duplicate_param [?a] ?b"
    by (simp add: duplicate_param_def seen_rule_ids_def rule_id_of_def string_from_root_def)
  have orp: "orphan_field [?a] ?c \<and> prop_name ?c = ''param_options''"
    by (simp add: orphan_field_def seen_rule_ids_def rule_id_of_def string_from_root_def)
  have 1: "get_params_from_item (Some [?a, ?b])
      = Inl (TrestleError (''Duplicate param '' @ prop_value ?b
               @ '' found for rule '' @ rule_id_of ?b))"
    using get_params_from_item_reports [of "Some [?a, ?b]", THEN conjunct2, THEN conjunct1,
        rule_format, of "[?a]" ?b "[]", THEN conjunct1, rule_format] ok dup
    by (simp add: as_list_def)
  have 2: "get_params_from_item (Some [?a, ?c])
      = Inl (TrestleError (''Param options for rule '' @ rule_id_of ?c
               @ '' found with no param_id''))"
    using get_params_from_item_reports [of "Some [?a, ?c]", THEN conjunct2, THEN conjunct1,
        rule_format, of "[?a]" ?c "[]", THEN conjunct2, THEN conjunct2, rule_format] ok orp
    by (simp add: as_list_def)
  have n: "list_all named_rule ?ts"
    by (simp add: named_rule_def)
  have 3: "get_rules_from_item (Some (concat (map rule_pair ?ts)))
      = Inr (fold (\<lambda>t. AList.update (rule_key t) (rule_entry t)) ?ts [])"
    using get_params_from_item_reports [of None, THEN conjunct2, THEN conjunct2, THEN conjunct1,
        THEN spec, of ?ts, THEN mp, OF n] by (rule conjunct1)
  have 4: "fold (\<lambda>t. AList.update (rule_key t) (rule_entry t)) ?ts []
      = [(''r1'', \<lparr>rule_name = ''n3'', rule_description = ''d3''\<rparr>),
         (''r2'', \<lparr>rule_name = ''n2'', rule_description = ''d2''\<rparr>)]"
    by (simp add: rule_key_def rule_entry_def string_from_root_def)
  show ?thesis
    using 1 2 3 unfolding 4 by (simp add: rule_id_of_def string_from_root_def)
qed

section \<open>Deep merge\<close>

lemma py_in_append: "py_in x (a @ b) \<longleftrightarrow> py_in x a \<or> py_in x b"
  by (auto simp: py_in_def list_ex_iff)

lemma py_in_self: "py_in x [x]"
  by (simp add: py_in_def)

lemma append_new_snoc:
  "append_new d (s @ [x])
     = (if py_in x (append_new d s) then append_new d s else append_new d s @ [x])"
  by (induction s arbitrary: d) simp_all

lemma append_new_novel:
  "\<exists>ys. append_new d s = d @ ys \<and> subseq ys s \<and> (\<forall>x\<in>set ys. \<not> py_in x d)
     \<and> (\<forall>x\<in>set s. py_in x (d @ ys))"
proof (induction s arbitrary: d)
  case Nil
  then show ?case by simp
next
  case (Cons x s)
  show ?case
  proof (cases "py_in x d")
    case True
    from Cons [of d] obtain ys where ys: "append_new d s = d @ ys" "subseq ys s"
      "\<forall>x\<in>set ys. \<not> py_in x d" "\<forall>x\<in>set s. py_in x (d @ ys)"
      by blast
    have "append_new d (x # s) = d @ ys" using True ys(1) by simp
    moreover have "subseq ys (x # s)" using ys(2) by (simp add: subseq_Cons2_iff list_emb_Cons)
    moreover have "\<forall>z\<in>set (x # s). py_in z (d @ ys)"
      using True ys(4) by (simp add: py_in_append)
    ultimately show ?thesis using ys(3) by blast
  next
    case False
    from Cons [of "d @ [x]"] obtain ys where ys: "append_new (d @ [x]) s = (d @ [x]) @ ys"
      "subseq ys s" "\<forall>z\<in>set ys. \<not> py_in z (d @ [x])" "\<forall>z\<in>set s. py_in z ((d @ [x]) @ ys)"
      by blast
    have "append_new d (x # s) = d @ (x # ys)" using False ys(1) by simp
    moreover have "subseq (x # ys) (x # s)" using ys(2) by (simp add: subseq_Cons2_iff)
    moreover have "\<forall>z\<in>set (x # ys). \<not> py_in z d"
      using False ys(3) by (simp add: py_in_append)
    moreover have "\<forall>z\<in>set (x # s). py_in z (d @ (x # ys))"
    proof
      fix z assume "z \<in> set (x # s)"
      then consider "z = x" | "z \<in> set s" by auto
      then show "py_in z (d @ (x # ys))"
      proof cases
        case 1
        have "py_in x ([x] @ ys)" unfolding py_in_append using py_in_self by blast
        then show ?thesis using 1 by (simp add: py_in_append)
      next
        case 2
        with ys(4) have "py_in z ((d @ [x]) @ ys)" by blast
        then show ?thesis by simp
      qed
    qed
    ultimately show ?thesis by blast
  qed
qed

lemma merge_value_other:
  "\<not> (is_dict dv \<and> is_dict sv) \<Longrightarrow> \<not> (is_list dv \<and> is_list sv) \<Longrightarrow>
     merge_value dv sv ow = (if ow then sv else dv)"
  by (cases dv; cases sv) (simp_all add: is_dict_def is_list_def)

lemma merge_dicts_deep_lookup:
  "distinct (map fst src) \<Longrightarrow>
   map_of (merge_dicts_deep dest src ow) key
     = (case map_of src key of
          None \<Rightarrow> map_of dest key
        | Some sv \<Rightarrow>
            (case map_of dest key of
               None \<Rightarrow> Some sv
             | Some dv \<Rightarrow> Some (merge_value dv sv ow)))"
proof (induction src arbitrary: dest)
  case Nil
  then show ?case by simp
next
  case (Cons a src)
  obtain k sv where a: "a = (k, sv)" by (cases a)
  from Cons.prems a have d: "distinct (map fst src)" and n: "map_of src k = None"
    by (simp_all add: map_of_eq_None_iff)
  let ?dest' = "case map_of dest k of
          Some dv \<Rightarrow> AList.update k (merge_value dv sv ow) dest
        | None \<Rightarrow> AList.update k sv dest"
  have step: "merge_dicts_deep dest (a # src) ow = merge_dicts_deep ?dest' src ow"
    by (simp add: a)
  have m: "map_of ?dest' = (map_of dest)(k \<mapsto>
      (case map_of dest k of Some dv \<Rightarrow> merge_value dv sv ow | None \<Rightarrow> sv))"
    by (simp add: update_conv' split: option.splits)
  show ?case
  proof (cases "key = k")
    case True
    then show ?thesis
      unfolding step Cons.IH [OF d] using n by (simp add: a m split: option.splits)
  next
    case False
    then show ?thesis
      unfolding step Cons.IH [OF d] by (simp add: a m split: option.splits)
  qed
qed


text \<open>
  C1. With the keys of \<open>src\<close> distinct, as in a dictionary: after the merge, a key of
  \<open>src\<close> alone has the value of \<open>src\<close>, a key of \<open>dest\<close> alone keeps its value, and a key
  of both has the merge of the two values. The merge of two dictionaries is the merge of
  the one into the other; the merge of two lists is the list of \<open>dest\<close> followed by
  elements of the list of \<open>src\<close>, in their order, where an element is appended when it is
  not already in the list of \<open>dest\<close> as it stands then (so the appended elements are not
  in the list as it was, every element of the list of \<open>src\<close> is in the result, and a new
  element that the list of \<open>src\<close> has twice is appended once); any
  other collision keeps the value of \<open>dest\<close>, or takes the value of \<open>src\<close> when
  \<open>overwrite\<close> is true. The four examples follow.
\<close>

theorem merge_dicts_deep_spec:
  fixes dest src :: "('k \<times> ('k, 'a) pyval) list"
  assumes "distinct (map fst src)"
  shows "(\<forall>key. map_of (merge_dicts_deep dest src ow) key
            = (case map_of src key of
                 None \<Rightarrow> map_of dest key
               | Some sv \<Rightarrow>
                   (case map_of dest key of
                      None \<Rightarrow> Some sv
                    | Some dv \<Rightarrow> Some (merge_value dv sv ow))))
     \<and> (\<forall>d s :: ('k \<times> ('k, 'a) pyval) list.
           merge_value (Dict d) (Dict s) ow = Dict (merge_dicts_deep d s ow))
     \<and> (\<forall>d s :: ('k, 'a) pyval list. merge_value (Seq d) (Seq s) ow = Seq (append_new d s)
           \<and> (\<exists>ys. append_new d s = d @ ys \<and> subseq ys s
                 \<and> (\<forall>x\<in>set ys. \<not> py_in x d) \<and> (\<forall>x\<in>set s. py_in x (d @ ys)))
           \<and> (\<forall>s1 x s2. s = s1 @ x # s2 \<longrightarrow>
                 append_new d (s1 @ [x])
                   = (if py_in x (append_new d s1) then append_new d s1
                      else append_new d s1 @ [x])))
     \<and> (\<forall>dv sv :: ('k, 'a) pyval. \<not> (is_dict dv \<and> is_dict sv) \<and> \<not> (is_list dv \<and> is_list sv) \<longrightarrow>
           merge_value dv sv ow = (if ow then sv else dv))
     \<and> merge_dicts_deep [] [(''a'', Scalar (1::int))] False = [(''a'', Scalar 1)]
     \<and> merge_dicts_deep [(''a'', Scalar (1::int))] [(''a'', Scalar 2)] False = [(''a'', Scalar 1)]
     \<and> merge_dicts_deep [(''a'', Scalar (1::int))] [(''a'', Scalar 2)] True = [(''a'', Scalar 2)]
     \<and> merge_dicts_deep [(''a'', Seq [Scalar (1::int)])] [(''a'', Seq [Scalar 1, Scalar 2])] False
         = [(''a'', Seq [Scalar 1, Scalar 2])]"
proof (intro conjI allI impI)
  fix key
  show "map_of (merge_dicts_deep dest src ow) key
            = (case map_of src key of
                 None \<Rightarrow> map_of dest key
               | Some sv \<Rightarrow>
                   (case map_of dest key of
                      None \<Rightarrow> Some sv
                    | Some dv \<Rightarrow> Some (merge_value dv sv ow)))"
    using assms by (rule merge_dicts_deep_lookup)
next
  fix d s :: "('k \<times> ('k, 'a) pyval) list"
  show "merge_value (Dict d) (Dict s) ow = Dict (merge_dicts_deep d s ow)" by simp
next
  fix d s :: "('k, 'a) pyval list"
  show "merge_value (Seq d) (Seq s) ow = Seq (append_new d s)" by simp
  show "\<exists>ys. append_new d s = d @ ys \<and> subseq ys s
          \<and> (\<forall>x\<in>set ys. \<not> py_in x d) \<and> (\<forall>x\<in>set s. py_in x (d @ ys))"
    by (rule append_new_novel)
next
  fix d s1 :: "('k, 'a) pyval list" and x
  show "append_new d (s1 @ [x])
      = (if py_in x (append_new d s1) then append_new d s1 else append_new d s1 @ [x])"
    by (rule append_new_snoc)
next
  fix dv sv :: "('k, 'a) pyval"
  assume "\<not> (is_dict dv \<and> is_dict sv) \<and> \<not> (is_list dv \<and> is_list sv)"
  then show "merge_value dv sv ow = (if ow then sv else dv)"
    by (simp add: merge_value_other)
next
  show "merge_dicts_deep [] [(''a'', Scalar (1::int))] False = [(''a'', Scalar 1)]"
    by simp
  show "merge_dicts_deep [(''a'', Scalar (1::int))] [(''a'', Scalar 2)] False = [(''a'', Scalar 1)]"
    by simp
  show "merge_dicts_deep [(''a'', Scalar (1::int))] [(''a'', Scalar 2)] True = [(''a'', Scalar 2)]"
    by simp
  show "merge_dicts_deep [(''a'', Seq [Scalar (1::int)])] [(''a'', Seq [Scalar 1, Scalar 2])] False
         = [(''a'', Seq [Scalar 1, Scalar 2])]"
    by (simp add: py_in_def)
qed

theorem merge_dicts_deep_spec_witness:
  "map_of (merge_dicts_deep
       [(''title'', Scalar (1::int)), (''tags'', Seq [Scalar 1]),
        (''meta'', Dict [(''x'', Scalar 1)])]
       [(''tags'', Seq [Scalar 1, Scalar 2, Scalar 2]), (''meta'', Dict [(''x'', Scalar 3), (''y'', Scalar 4)]),
        (''new'', Scalar 7)] False) ''tags''
     = Some (Seq [Scalar 1, Scalar 2])
   \<and> map_of (merge_dicts_deep
       [(''title'', Scalar (1::int)), (''tags'', Seq [Scalar 1]),
        (''meta'', Dict [(''x'', Scalar 1)])]
       [(''tags'', Seq [Scalar 1, Scalar 2, Scalar 2]), (''meta'', Dict [(''x'', Scalar 3), (''y'', Scalar 4)]),
        (''new'', Scalar 7)] False) ''meta''
     = Some (Dict [(''x'', Scalar 1), (''y'', Scalar 4)])
   \<and> map_of (merge_dicts_deep
       [(''title'', Scalar (1::int)), (''tags'', Seq [Scalar 1]),
        (''meta'', Dict [(''x'', Scalar 1)])]
       [(''tags'', Seq [Scalar 1, Scalar 2, Scalar 2]), (''meta'', Dict [(''x'', Scalar 3), (''y'', Scalar 4)]),
        (''new'', Scalar 7)] False) ''new''
     = Some (Scalar 7)"
proof -
  let ?dest = "[(''title'', Scalar (1::int)), (''tags'', Seq [Scalar 1]),
        (''meta'', Dict [(''x'', Scalar 1)])]"
  let ?src = "[(''tags'', Seq [Scalar (1::int), Scalar 2, Scalar 2]),
        (''meta'', Dict [(''x'', Scalar 3), (''y'', Scalar 4)]), (''new'', Scalar 7)]"
  have d: "distinct (map fst ?src)" by simp
  note t = merge_dicts_deep_spec [OF d, of ?dest False, THEN conjunct1, rule_format]
  show ?thesis
    unfolding t [of "''tags''"] t [of "''meta''"] t [of "''new''"]
    by (simp add: py_in_def)
qed

section \<open>Inserting an implemented requirement\<close>

lemma del_first_one:
  "length (filter (\<lambda>p. prop_name p = n) ps) \<le> 1 \<Longrightarrow> filter (\<lambda>p. prop_name p = n) (del_first n ps) = []"
  by (induction ps) (auto split: if_splits)

lemma find_snoc_new: "filter P xs = [] \<Longrightarrow> P y \<Longrightarrow> find P (xs @ [y]) = Some y"
  by (induction xs) (auto split: if_splits)

lemma filter_name_empty: "n \<notin> set (map prop_name ps) \<Longrightarrow> filter (\<lambda>p. prop_name p = n) ps = []"
  by (induction ps) auto

lemma get_status_token:
  assumes "get_status_from_props c props = Inr st"
  shows "is_token c (STATUS_OTHER c)" and "is_token c (state st)"
  using assms
  by (auto simp: get_status_from_props_def new_ImplementationStatus_def prop_as_status_def
      split: if_splits option.splits)

lemma get_status_inserted:
  assumes "one_status c props" and "is_token c (STATUS_OTHER c)" and "is_token c (state st)"
  shows "get_status_from_props c (insert_status_in_props c props st) = Inr st"
proof -
  let ?n = "IMPLEMENTATION_STATUS c"
  let ?new = "status_as_prop c st"
  have nm: "prop_name ?new = ?n" by (simp add: status_as_prop_def)
  obtain xs where r: "as_list (insert_status_in_props c props st) = xs @ [?new]"
    and e: "filter (\<lambda>p. prop_name p = ?n) xs = []"
  proof (cases "?n \<in> set (map prop_name (as_list props))")
    case True
    have "as_list (insert_status_in_props c props st) = del_first ?n (as_list props) @ [?new]"
      using True by (simp add: insert_status_in_props_def replace_prop_def nm as_list_def)
    moreover have "filter (\<lambda>p. prop_name p = ?n) (del_first ?n (as_list props)) = []"
      using assms(1) by (intro del_first_one) (simp add: one_status_def)
    ultimately show ?thesis using that by blast
  next
    case False
    have "as_list (insert_status_in_props c props st) = as_list props @ [?new]"
      using False by (simp add: insert_status_in_props_def replace_prop_def nm as_list_def)
    moreover have "filter (\<lambda>p. prop_name p = ?n) (as_list props) = []"
      using False by (rule filter_name_empty)
    ultimately show ?thesis using that by blast
  qed
  have f: "find (\<lambda>p. prop_name p = ?n) (xs @ [?new]) = Some ?new"
    using e nm by (rule find_snoc_new)
  have "prop_as_status c ?new = Inr st"
    using assms(3) by (simp add: prop_as_status_def new_ImplementationStatus_def status_as_prop_def)
  then show ?thesis
    unfolding get_status_from_props_def r f using assms(2)
    by (simp add: new_ImplementationStatus_def)
qed

lemma insert_in_imp_reqs_none:
  "\<forall>x\<in>set rs. req_control_id x \<noteq> req_control_id new \<Longrightarrow> insert_in_imp_reqs c new rs = Inr None"
  by (induction rs) simp_all

lemma insert_in_imp_reqs_found:
  "\<forall>x\<in>set rs1. req_control_id x \<noteq> req_control_id new \<Longrightarrow>
   req_control_id r = req_control_id new \<Longrightarrow>
   insert_in_imp_reqs c new (rs1 @ r # rs2)
     = (case update_imp_req c r new of
          Inl e \<Rightarrow> Inl e
        | Inr updated \<Rightarrow> Inr (Some (rs1 @ updated # rs2)))"
  by (induction rs1) (simp_all split: sum.splits)

lemma insert_in_control_imps_none:
  "\<forall>x\<in>set cis. \<not> has_control_id (req_control_id new) x \<Longrightarrow>
   insert_in_control_imps c new cis = Inr None"
proof (induction cis)
  case Nil
  then show ?case by simp
next
  case (Cons ci cis)
  then have "\<forall>x\<in>set (implemented_requirements ci). req_control_id x \<noteq> req_control_id new"
    by (auto simp: has_control_id_def list_ex_iff)
  then have "insert_in_imp_reqs c new (implemented_requirements ci) = Inr None"
    by (rule insert_in_imp_reqs_none)
  with Cons show ?case by simp
qed

lemma insert_in_control_imps_found:
  assumes "\<forall>x\<in>set cis1. \<not> has_control_id (req_control_id new) x"
    and "implemented_requirements ci = rs1 @ r # rs2"
    and "\<forall>x\<in>set rs1. req_control_id x \<noteq> req_control_id new"
    and "req_control_id r = req_control_id new"
  shows "insert_in_control_imps c new (cis1 @ ci # cis2)
     = (case update_imp_req c r new of
          Inl e \<Rightarrow> Inl e
        | Inr updated \<Rightarrow>
            Inr (Some (cis1 @ ci\<lparr>implemented_requirements := rs1 @ updated # rs2\<rparr> # cis2)))"
  using assms(1)
proof (induction cis1)
  case Nil
  show ?case
    using insert_in_imp_reqs_found [OF assms(3,4), of c rs2] assms(2)
    by (simp split: sum.splits)
next
  case (Cons x cis1)
  then have "\<forall>y\<in>set (implemented_requirements x). req_control_id y \<noteq> req_control_id new"
    by (auto simp: has_control_id_def list_ex_iff)
  then have "insert_in_imp_reqs c new (implemented_requirements x) = Inr None"
    by (rule insert_in_imp_reqs_none)
  with Cons show ?case by (simp split: sum.splits)
qed

lemma insert_no_bucket:
  "as_list (control_implementations component) = [] \<longrightarrow>
     insert_imp_req_into_component c u component new
       = Inl (ValidationError ''implemented-requirements: field required'')"
  by (simp add: insert_imp_req_into_component_def new_ControlImplementation_def)

lemma insert_appended:
  "\<forall>first rest. as_list (control_implementations component) = first # rest
      \<and> (\<forall>x\<in>set (first # rest). \<not> has_control_id (req_control_id new) x) \<longrightarrow>
      insert_imp_req_into_component c u component new
        = Inr (component\<lparr>control_implementations :=
                 Some (first\<lparr>implemented_requirements := implemented_requirements first @ [new]\<rparr>
                         # rest)\<rparr>)"
proof (intro allI impI)
  fix first rest
  assume h: "as_list (control_implementations component) = first # rest
      \<and> (\<forall>x\<in>set (first # rest). \<not> has_control_id (req_control_id new) x)"
  then have "insert_in_control_imps c new (first # rest) = Inr None"
    by (intro insert_in_control_imps_none) blast
  then show "insert_imp_req_into_component c u component new
        = Inr (component\<lparr>control_implementations :=
                 Some (first\<lparr>implemented_requirements := implemented_requirements first @ [new]\<rparr>
                         # rest)\<rparr>)"
    using h by (simp add: insert_imp_req_into_component_def append_to_first_def)
qed

lemma insert_found:
  "\<forall>cis1 ci cis2 rs1 r rs2.
      as_list (control_implementations component) = cis1 @ ci # cis2
      \<and> (\<forall>x\<in>set cis1. \<not> has_control_id (req_control_id new) x)
      \<and> implemented_requirements ci = rs1 @ r # rs2
      \<and> (\<forall>x\<in>set rs1. req_control_id x \<noteq> req_control_id new)
      \<and> req_control_id r = req_control_id new \<longrightarrow>
      insert_imp_req_into_component c u component new
        = (case update_imp_req c r new of
             Inl e \<Rightarrow> Inl e
           | Inr updated \<Rightarrow>
               Inr (component\<lparr>control_implementations :=
                      Some (cis1 @ ci\<lparr>implemented_requirements := rs1 @ updated # rs2\<rparr>
                              # cis2)\<rparr>))"
proof (intro allI impI)
  fix cis1 ci cis2 rs1 r rs2
  assume h: "as_list (control_implementations component) = cis1 @ ci # cis2
      \<and> (\<forall>x\<in>set cis1. \<not> has_control_id (req_control_id new) x)
      \<and> implemented_requirements ci = rs1 @ r # rs2
      \<and> (\<forall>x\<in>set rs1. req_control_id x \<noteq> req_control_id new)
      \<and> req_control_id r = req_control_id new"
  have "insert_in_control_imps c new (cis1 @ ci # cis2)
     = (case update_imp_req c r new of
          Inl e \<Rightarrow> Inl e
        | Inr updated \<Rightarrow>
            Inr (Some (cis1 @ ci\<lparr>implemented_requirements := rs1 @ updated # rs2\<rparr> # cis2)))"
    using h by (intro insert_in_control_imps_found) simp_all
  then show "insert_imp_req_into_component c u component new
        = (case update_imp_req c r new of
             Inl e \<Rightarrow> Inl e
           | Inr updated \<Rightarrow>
               Inr (component\<lparr>control_implementations :=
                      Some (cis1 @ ci\<lparr>implemented_requirements := rs1 @ updated # rs2\<rparr>
                              # cis2)\<rparr>))"
    using h by (simp add: insert_imp_req_into_component_def split: sum.splits)
qed

lemma insert_updated_req:
  "\<forall>r updated. update_imp_req c r new = Inr updated \<longrightarrow>
      req_uuid updated = req_uuid r
      \<and> req_control_id updated = req_control_id r
      \<and> req_description updated = req_description r
      \<and> (\<exists>status. get_status_from_props c (req_props new) = Inr status
            \<and> req_props updated = replace_prop (req_props r) (status_as_prop c status))
      \<and> (one_status c (req_props r) \<longrightarrow>
           get_status_from_props c (req_props updated) = get_status_from_props c (req_props new))"
proof (intro allI impI)
  fix r updated
  assume u: "update_imp_req c r new = Inr updated"
  then obtain status stmts where s: "get_status_from_props c (req_props new) = Inr status"
    and m: "merge_statements c (as_list (req_statements r)) (as_list (req_statements new)) = Inr stmts"
    and v: "updated = r\<lparr>req_props := insert_status_in_props c (req_props r) status,
                          req_statements := none_if_empty stmts\<rparr>"
    by (auto simp: update_imp_req_def split: sum.splits)
  have "get_status_from_props c (req_props updated) = Inr status" if "one_status c (req_props r)"
    using get_status_inserted [OF that get_status_token [OF s]] by (simp add: v)
  then show "req_uuid updated = req_uuid r
      \<and> req_control_id updated = req_control_id r
      \<and> req_description updated = req_description r
      \<and> (\<exists>status. get_status_from_props c (req_props new) = Inr status
            \<and> req_props updated = replace_prop (req_props r) (status_as_prop c status))
      \<and> (one_status c (req_props r) \<longrightarrow>
           get_status_from_props c (req_props updated) = get_status_from_props c (req_props new))"
    using s by (simp add: v insert_status_in_props_def)
qed


text \<open>
  C2. Where the first implemented requirement of the component with the control id of the
  new record is \<open>r\<close> (in the order of the control implementations and of their
  requirements), the component comes back with \<open>r\<close> replaced at its place by the updated
  \<open>r\<close>, or the update raises; the updated \<open>r\<close> has the uuid, control id and description
  of \<open>r\<close>, and the status of the new record in place of its first status property, which
  is then its status when \<open>r\<close> had at most one. Where no requirement has that control id
  and the component has a control implementation, the new record is appended to the
  requirements of the first one. Where the component has no control implementation, the
  call raises: the control implementation it sets out to create is constructed without
  implemented requirements, and nothing is appended.
\<close>

theorem insert_imp_req_into_component_cases:
  "(as_list (control_implementations component) = [] \<longrightarrow>
      insert_imp_req_into_component c u component new
        = Inl (ValidationError ''implemented-requirements: field required''))
   \<and> (\<forall>first rest. as_list (control_implementations component) = first # rest
      \<and> (\<forall>x\<in>set (first # rest). \<not> has_control_id (req_control_id new) x) \<longrightarrow>
      insert_imp_req_into_component c u component new
        = Inr (component\<lparr>control_implementations :=
                 Some (first\<lparr>implemented_requirements := implemented_requirements first @ [new]\<rparr>
                         # rest)\<rparr>))
   \<and> (\<forall>cis1 ci cis2 rs1 r rs2.
      as_list (control_implementations component) = cis1 @ ci # cis2
      \<and> (\<forall>x\<in>set cis1. \<not> has_control_id (req_control_id new) x)
      \<and> implemented_requirements ci = rs1 @ r # rs2
      \<and> (\<forall>x\<in>set rs1. req_control_id x \<noteq> req_control_id new)
      \<and> req_control_id r = req_control_id new \<longrightarrow>
      insert_imp_req_into_component c u component new
        = (case update_imp_req c r new of
             Inl e \<Rightarrow> Inl e
           | Inr updated \<Rightarrow>
               Inr (component\<lparr>control_implementations :=
                      Some (cis1 @ ci\<lparr>implemented_requirements := rs1 @ updated # rs2\<rparr>
                              # cis2)\<rparr>)))
   \<and> (\<forall>r updated. update_imp_req c r new = Inr updated \<longrightarrow>
      req_uuid updated = req_uuid r
      \<and> req_control_id updated = req_control_id r
      \<and> req_description updated = req_description r
      \<and> (\<exists>status. get_status_from_props c (req_props new) = Inr status
            \<and> req_props updated = replace_prop (req_props r) (status_as_prop c status))
      \<and> (one_status c (req_props r) \<longrightarrow>
           get_status_from_props c (req_props updated) = get_status_from_props c (req_props new)))"
  by (intro conjI)
    (rule insert_no_bucket, rule insert_appended, rule insert_found, rule insert_updated_req)

lemma token_examples:
  "token_pattern ''other''" "token_pattern ''planned''" "token_pattern ''implemented''"
  by (simp_all add: token_pattern_def token_first_def token_other_def)

lemma update_imp_req_example:
  "update_imp_req c0 req_old req_new
     = Inr (req_old\<lparr>
         req_props := Some [\<lparr>prop_name = ''implementation-status'', prop_value = ''implemented'',
                              prop_remarks = None\<rparr>],
         req_statements := Some [stmt_old\<lparr>
           stmt_description := ''new text'',
           stmt_props := Some [\<lparr>prop_name = ''implementation-status'',
                                 prop_value = ''implemented'', prop_remarks = None\<rparr>]\<rparr>]\<rparr>)"
proof -
  have tok: "is_token c0 = token_pattern" "STATUS_OTHER c0 = ''other''"
    "IMPLEMENTATION_STATUS c0 = ''implementation-status''"
    by (simp_all add: c0_def)
  have st: "get_status_from_props c0 (Some [\<lparr>prop_name = ''implementation-status'',
        prop_value = ''implemented'', prop_remarks = None\<rparr>])
      = Inr \<lparr>state = ''implemented'', status_remarks = None\<rparr>"
    by (simp add: get_status_from_props_def new_ImplementationStatus_def prop_as_status_def
        tok token_examples as_list_def)
  have ins: "insert_status_in_props c0 (Some [\<lparr>prop_name = ''implementation-status'',
        prop_value = ''planned'', prop_remarks = None\<rparr>])
        \<lparr>state = ''implemented'', status_remarks = None\<rparr>
      = Some [\<lparr>prop_name = ''implementation-status'', prop_value = ''implemented'',
               prop_remarks = None\<rparr>]"
    by (simp add: insert_status_in_props_def replace_prop_def status_as_prop_def tok as_list_def)
  have us: "update_statement c0 stmt_old stmt_new
      = Inr (stmt_old\<lparr>stmt_description := ''new text'',
           stmt_props := Some [\<lparr>prop_name = ''implementation-status'',
                                 prop_value = ''implemented'', prop_remarks = None\<rparr>]\<rparr>)"
    by (simp add: update_statement_def copy_status_in_props_def stmt_old_def stmt_new_def st ins)
  have sd: "statement_dict [stmt_old] (statement_id stmt_new) = Some stmt_old"
    by (simp add: statement_dict_def stmt_old_def stmt_new_def)
  have ms: "merge_statements c0 [stmt_old] [stmt_new]
      = Inr [stmt_old\<lparr>stmt_description := ''new text'',
           stmt_props := Some [\<lparr>prop_name = ''implementation-status'',
                                 prop_value = ''implemented'', prop_remarks = None\<rparr>]\<rparr>]"
    by (simp add: merge_statements_def sd us deref_def)
  show ?thesis
    by (simp add: update_imp_req_def req_old_def req_new_def st ins as_list_def ms
        none_if_empty_def)
qed

theorem insert_imp_req_into_component_cases_witness:
  "insert_imp_req_into_component c0 ''u9'' comp_b req_new
     = Inl (ValidationError ''implemented-requirements: field required'')
   \<and> insert_imp_req_into_component c0 ''u9'' comp_a req_other
     = Inr (comp_a\<lparr>control_implementations :=
              Some [ci_a\<lparr>implemented_requirements := [req_old, req_other]\<rparr>]\<rparr>)
   \<and> insert_imp_req_into_component c0 ''u9'' comp_a req_new
     = Inr (comp_a\<lparr>control_implementations :=
              Some [ci_a\<lparr>implemented_requirements :=
                [req_old\<lparr>
                   req_props := Some [\<lparr>prop_name = ''implementation-status'',
                                        prop_value = ''implemented'', prop_remarks = None\<rparr>],
                   req_statements := Some [stmt_old\<lparr>
                     stmt_description := ''new text'',
                     stmt_props := Some [\<lparr>prop_name = ''implementation-status'',
                                           prop_value = ''implemented'',
                                           prop_remarks = None\<rparr>]\<rparr>]\<rparr>]\<rparr>]\<rparr>)"
proof -
  note tb = insert_imp_req_into_component_cases [of comp_b c0 "''u9''" req_new]
  note to = insert_imp_req_into_component_cases [of comp_a c0 "''u9''" req_other]
  note tn = insert_imp_req_into_component_cases [of comp_a c0 "''u9''" req_new]
  have eb: "as_list (control_implementations comp_b) = []"
    by (simp add: comp_b_def as_list_def)
  have 1: "insert_imp_req_into_component c0 ''u9'' comp_b req_new
     = Inl (ValidationError ''implemented-requirements: field required'')"
    by (rule tb [THEN conjunct1, THEN mp, OF eb])
  have ho: "as_list (control_implementations comp_a) = ci_a # []
      \<and> (\<forall>x\<in>set (ci_a # []). \<not> has_control_id (req_control_id req_other) x)"
    by (simp add: comp_a_def as_list_def has_control_id_def ci_a_def req_old_def req_other_def)
  have 2: "insert_imp_req_into_component c0 ''u9'' comp_a req_other
     = Inr (comp_a\<lparr>control_implementations :=
              Some (ci_a\<lparr>implemented_requirements := implemented_requirements ci_a @ [req_other]\<rparr>
                      # [])\<rparr>)"
    by (rule to [THEN conjunct2, THEN conjunct1, THEN spec, THEN spec, THEN mp, OF ho])
  have hn: "as_list (control_implementations comp_a) = [] @ ci_a # []
      \<and> (\<forall>x\<in>set []. \<not> has_control_id (req_control_id req_new) x)
      \<and> implemented_requirements ci_a = [] @ req_old # []
      \<and> (\<forall>x\<in>set []. req_control_id x \<noteq> req_control_id req_new)
      \<and> req_control_id req_old = req_control_id req_new"
    by (simp add: comp_a_def as_list_def ci_a_def req_old_def req_new_def)
  have 3: "insert_imp_req_into_component c0 ''u9'' comp_a req_new
     = (case update_imp_req c0 req_old req_new of
          Inl e \<Rightarrow> Inl e
        | Inr updated \<Rightarrow>
            Inr (comp_a\<lparr>control_implementations :=
                   Some ([] @ ci_a\<lparr>implemented_requirements := [] @ updated # []\<rparr> # [])\<rparr>))"
    by (rule tn [THEN conjunct2, THEN conjunct2, THEN conjunct1, THEN spec, THEN spec, THEN spec,
          THEN spec, THEN spec, THEN spec, THEN mp, OF hn])
  have ia: "implemented_requirements ci_a = [req_old]" by (simp add: ci_a_def)
  show ?thesis
    unfolding 1 2 3 update_imp_req_example ia by simp
qed

end
